theory Spec2Isabelle
  imports Complex_Main
begin

section \<open>Tensor elements\<close>

text \<open>
  The program computes with floating-point tensors. The embedding is the exact-arithmetic
  idealisation: a finite element is a real number and no operation rounds or overflows.
  The one exception is the time sequence of the reduced-step sampler, which is read from
  floating-point numbers by truncation: there the rounding is modelled (see \<open>f32\<close>).
  What the program's arithmetic does where real arithmetic is undefined is kept: a division
  by zero, the square root or the logarithm of a negative number do not raise in torch, they
  produce an infinity or a NaN that then propagates. Signed zeros are not modelled: a zero
  divisor counts as +0 (the divisors of the program are clipped at 0 from below).
\<close>

datatype tval = Fin real | PInf | NInf | NaN

fun tneg :: "tval \<Rightarrow> tval" where
  "tneg (Fin a) = Fin (- a)"
| "tneg PInf = NInf"
| "tneg NInf = PInf"
| "tneg NaN = NaN"

fun tadd :: "tval \<Rightarrow> tval \<Rightarrow> tval" where
  "tadd (Fin a) (Fin b) = Fin (a + b)"
| "tadd NaN _ = NaN"
| "tadd _ NaN = NaN"
| "tadd PInf NInf = NaN"
| "tadd NInf PInf = NaN"
| "tadd PInf _ = PInf"
| "tadd _ PInf = PInf"
| "tadd NInf _ = NInf"
| "tadd _ NInf = NInf"

definition tsub :: "tval \<Rightarrow> tval \<Rightarrow> tval" where
  "tsub a b = tadd a (tneg b)"

definition inf_of_sign :: "bool \<Rightarrow> tval" where
  "inf_of_sign positive = (if positive then PInf else NInf)"

fun tmul :: "tval \<Rightarrow> tval \<Rightarrow> tval" where
  "tmul (Fin a) (Fin b) = Fin (a * b)"
| "tmul NaN _ = NaN"
| "tmul _ NaN = NaN"
| "tmul (Fin a) PInf = (if a = 0 then NaN else inf_of_sign (0 < a))"
| "tmul (Fin a) NInf = (if a = 0 then NaN else inf_of_sign (a < 0))"
| "tmul PInf (Fin b) = (if b = 0 then NaN else inf_of_sign (0 < b))"
| "tmul NInf (Fin b) = (if b = 0 then NaN else inf_of_sign (b < 0))"
| "tmul PInf PInf = PInf"
| "tmul NInf NInf = PInf"
| "tmul PInf NInf = NInf"
| "tmul NInf PInf = NInf"

fun tdiv :: "tval \<Rightarrow> tval \<Rightarrow> tval" where
  "tdiv (Fin a) (Fin b) =
     (if b \<noteq> 0 then Fin (a / b)
      else if a = 0 then NaN else inf_of_sign (0 < a))"
| "tdiv NaN _ = NaN"
| "tdiv _ NaN = NaN"
| "tdiv (Fin a) PInf = Fin 0"
| "tdiv (Fin a) NInf = Fin 0"
| "tdiv PInf (Fin b) = inf_of_sign (0 \<le> b)"
| "tdiv NInf (Fin b) = inf_of_sign (b < 0)"
| "tdiv PInf PInf = NaN"
| "tdiv PInf NInf = NaN"
| "tdiv NInf PInf = NaN"
| "tdiv NInf NInf = NaN"

fun tsqrt :: "tval \<Rightarrow> tval" where
  "tsqrt (Fin a) = (if a < 0 then NaN else Fin (sqrt a))"
| "tsqrt PInf = PInf"
| "tsqrt NInf = NaN"
| "tsqrt NaN = NaN"

fun tlog :: "tval \<Rightarrow> tval" where
  "tlog (Fin a) = (if a < 0 then NaN else if a = 0 then NInf else Fin (ln a))"
| "tlog PInf = PInf"
| "tlog NInf = NaN"
| "tlog NaN = NaN"

fun texp :: "tval \<Rightarrow> tval" where
  "texp (Fin a) = Fin (exp a)"
| "texp PInf = PInf"
| "texp NInf = Fin 0"
| "texp NaN = NaN"

fun tabs :: "tval \<Rightarrow> tval" where
  "tabs (Fin a) = Fin \<bar>a\<bar>"
| "tabs PInf = PInf"
| "tabs NInf = PInf"
| "tabs NaN = NaN"

text \<open>\<^verbatim>\<open>torch.clamp(x, min=lo, max=hi)\<close>: a NaN stays a NaN, an infinity goes to the bound.\<close>

fun tclamp :: "real \<Rightarrow> real \<Rightarrow> tval \<Rightarrow> tval" where
  "tclamp lo hi (Fin a) = Fin (min (max a lo) hi)"
| "tclamp lo hi PInf = Fin hi"
| "tclamp lo hi NInf = Fin lo"
| "tclamp lo hi NaN = NaN"

text \<open>\<^verbatim>\<open>x.clamp(min=lo)\<close>\<close>

fun tclamp_min :: "real \<Rightarrow> tval \<Rightarrow> tval" where
  "tclamp_min lo (Fin a) = Fin (max a lo)"
| "tclamp_min lo PInf = PInf"
| "tclamp_min lo NInf = Fin lo"
| "tclamp_min lo NaN = NaN"

section \<open>Errors\<close>

datatype error =
    AssertionError
  | IndexError
  | ZeroDivisionError
  | RuntimeError
  | TypeError
  | ValueError
  | UnboundLocalError

section \<open>Coefficient schedule\<close>

text \<open>
  \<^verbatim>\<open>torch.linspace(start, end, steps, dtype=torch.float64)\<close>: \<open>steps\<close> points from
  \<open>start\<close> to \<open>stop\<close> inclusive; a single point is \<open>start\<close>; a negative number of steps
  is refused. The program calls it with \<open>start = 1\<close> and \<open>stop = steps\<close> only: the step is
  then exactly \<open>1\<close> and every point is an integer, which double precision computes
  without rounding.
\<close>

definition linspace :: "real \<Rightarrow> real \<Rightarrow> int \<Rightarrow> error + real list" where
  "linspace start stop steps =
     (if steps < 0 then Inl RuntimeError
      else if steps = 1 then Inr [start]
      else Inr (map (\<lambda>i. start + real i * ((stop - start) / real_of_int (steps - 1)))
                  [0..<nat steps]))"

text \<open>\<^verbatim>\<open>torch.full([n], v)\<close>\<close>

definition full :: "int \<Rightarrow> real \<Rightarrow> error + real list" where
  "full n v = (if n < 0 then Inl RuntimeError else Inr (replicate (nat n) v))"

text \<open>
  The three branches of \<^verbatim>\<open>gen_coefficients\<close> and its fall-through, before the assertion.
  \<^verbatim>\<open>1/timesteps\<close> is a Python division: it raises at \<open>timesteps = 0\<close>. The division
  \<^verbatim>\<open>x/scale\<close> is elementwise: \<open>scale\<close> is zero only at \<open>timesteps = 0\<close>, where \<open>x\<close> is empty,
  and at \<open>timesteps = -1\<close>, where \<^verbatim>\<open>linspace\<close> has raised.
\<close>

definition raw_coefficients :: "int \<Rightarrow> string \<Rightarrow> error + real list" where
  "raw_coefficients timesteps schedule =
     (if schedule = ''increased'' then
        (case linspace 1 (real_of_int timesteps) timesteps of
           Inl e \<Rightarrow> Inl e
         | Inr x \<Rightarrow>
             let scale = 0.5 * real_of_int timesteps * (real_of_int timesteps + 1)
             in Inr (map (\<lambda>v. v / scale) x))
      else if schedule = ''decreased'' then
        (case linspace 1 (real_of_int timesteps) timesteps of
           Inl e \<Rightarrow> Inl e
         | Inr x \<Rightarrow>
             let x' = rev x;
                 scale = 0.5 * real_of_int timesteps * (real_of_int timesteps + 1)
             in Inr (map (\<lambda>v. v / scale) x'))
      else if schedule = ''average'' then
        (if timesteps = 0 then Inl ZeroDivisionError
         else full timesteps (1 / real_of_int timesteps))
      else
        (if timesteps = 0 then Inl ZeroDivisionError
         else full timesteps (1 / real_of_int timesteps)))"

text \<open>\<^verbatim>\<open>assert alphas.sum()-torch.tensor(1) < torch.tensor(1e-10)\<close>\<close>

definition sum_assertion :: "real list \<Rightarrow> bool" where
  "sum_assertion alphas \<longleftrightarrow> sum_list alphas - 1 < 1 / 10 ^ 10"

definition gen_coefficients :: "int \<Rightarrow> string \<Rightarrow> real \<Rightarrow> error + real list" where
  "gen_coefficients timesteps schedule sum_scale =
     (case raw_coefficients timesteps schedule of
        Inl e \<Rightarrow> Inl e
      | Inr alphas \<Rightarrow>
          if sum_assertion alphas then Inr (map (\<lambda>a. a * sum_scale) alphas)
          else Inl AssertionError)"


section \<open>Tensors and the denoiser\<close>

text \<open>
  A tensor of shape \<open>(b, c, h, w)\<close> is the list of its \<open>b\<close> samples, each sample the list
  of its \<open>c * h * w\<close> elements in row-major order, so that concatenation along the channel
  dimension is the concatenation of the samples. Broadcasting between tensors of different
  shapes is not modelled: an elementwise operation on two tensors of different shapes is a
  \<open>RuntimeError\<close> (as it is in torch unless a dimension has size 1).
\<close>

type_synonym tensor = "tval list list"

definition and_then :: "error + 'a \<Rightarrow> ('a \<Rightarrow> error + 'b) \<Rightarrow> error + 'b" where
  "and_then r f = (case r of Inl e \<Rightarrow> Inl e | Inr v \<Rightarrow> f v)"

definition tensor_op :: "(tval \<Rightarrow> tval \<Rightarrow> tval) \<Rightarrow> tensor \<Rightarrow> tensor \<Rightarrow> error + tensor" where
  "tensor_op f x y =
     (if map length x = map length y then Inr (map2 (map2 f) x y) else Inl RuntimeError)"

text \<open>A per-sample coefficient of shape \<open>(b, 1, 1, 1)\<close> applied to a tensor of \<open>b\<close> samples.\<close>

definition coef_op :: "(tval \<Rightarrow> tval \<Rightarrow> tval) \<Rightarrow> tval list \<Rightarrow> tensor \<Rightarrow> error + tensor" where
  "coef_op f c x =
     (if length c = length x then Inr (map2 (\<lambda>ci row. map (f ci) row) c x)
      else Inl RuntimeError)"

text \<open>A scalar (a Python number or a 0-dimensional tensor) applied to every element.\<close>

definition scalar_op :: "(tval \<Rightarrow> tval) \<Rightarrow> tensor \<Rightarrow> tensor" where
  "scalar_op f x = map (map f) x"

text \<open>
  The denoiser is an external collaborator: a function of the input tensor, the timesteps
  of the batch and the optional self-conditioning tensor to a residual estimate and a
  noise estimate.
\<close>

type_synonym denoiser = "tensor \<Rightarrow> int list \<Rightarrow> tensor option \<Rightarrow> tensor \<times> tensor"

record unet =
  m_channels :: nat
  out_dim :: nat
  m_self_condition :: bool
  random_or_learned_sinusoidal_cond :: bool
  forward :: denoiser

section \<open>The diffusion schedule\<close>

record diffusion_args =
  arg_image_size :: nat
  arg_timesteps :: int
  arg_sampling_timesteps :: "int option"
  arg_loss_type :: string
  arg_objective :: string
  arg_ddim_sampling_eta :: real
  arg_condition :: bool
  arg_sum_scale :: "real option"
  arg_input_condition :: bool
  arg_input_condition_mask :: bool

record Diffusion =
  model :: unet
  channels :: nat
  self_condition :: bool
  image_size :: nat
  objective :: string
  condition :: bool
  input_condition :: bool
  input_condition_mask :: bool
  sum_scale :: real
  num_timesteps :: int
  loss_type :: string
  sampling_timesteps :: int
  is_ddim_sampling :: bool
  ddim_sampling_eta :: real
  alphas :: "real list"
  alphas_cumsum :: "real list"
  one_minus_alphas_cumsum :: "real list"
  betas2 :: "real list"
  betas :: "tval list"
  betas2_cumsum :: "real list"
  betas_cumsum :: "real list"
  posterior_mean_coef1 :: "tval list"
  posterior_mean_coef2 :: "tval list"
  posterior_mean_coef3 :: "tval list"
  posterior_variance :: "tval list"
  posterior_log_variance_clipped :: "tval list"

fun cumsum_from :: "real \<Rightarrow> real list \<Rightarrow> real list" where
  "cumsum_from acc [] = []"
| "cumsum_from acc (x # xs) = (acc + x) # cumsum_from (acc + x) xs"

definition cumsum :: "real list \<Rightarrow> real list" where
  "cumsum xs = cumsum_from 0 xs"

text \<open>\<^verbatim>\<open>.clip(0, 1)\<close> on one element\<close>

definition clip01 :: "real \<Rightarrow> real" where
  "clip01 x = min (max x 0) 1"

text \<open>\<^verbatim>\<open>F.pad(a[:-1], (1, 0), value=1.)\<close>\<close>

definition pad_prev :: "real list \<Rightarrow> real list" where
  "pad_prev a = 1 # butlast a"

text \<open>\<^verbatim>\<open>sum_scale if sum_scale else d\<close>: \<open>None\<close> and \<open>0\<close> are falsy.\<close>

definition truthy_or :: "real option \<Rightarrow> real \<Rightarrow> real" where
  "truthy_or v d = (case v of None \<Rightarrow> d | Some x \<Rightarrow> if x \<noteq> 0 then x else d)"

text \<open>
  \<^verbatim>\<open>Diffusion.__init__\<close>. The buffers that the program computes by sums, clips and square
  roots of clipped values are lists of reals; those it computes by a division, or by the
  square root of an unclipped value, are lists of \<open>tval\<close>. The elementwise expressions are
  written by index over the \<open>n\<close> elements of \<open>betas2\<close>. The cast of the buffers to single
  precision is not modelled.
\<close>

definition Diffusion_init :: "unet \<Rightarrow> diffusion_args \<Rightarrow> error + Diffusion" where
  "Diffusion_init m a =
     (if m_channels m \<noteq> out_dim m then Inl AssertionError
      else if random_or_learned_sinusoidal_cond m then Inl AssertionError
      else
        let scl = (if arg_condition a then truthy_or (arg_sum_scale a) 0.01
                   else truthy_or (arg_sum_scale a) 1);
            eta = (if arg_condition a then 0 else arg_ddim_sampling_eta a)
        in
        and_then (gen_coefficients (arg_timesteps a) ''decreased'' 1) (\<lambda>al.
        let ac = map clip01 (cumsum al);
            ac_prev = pad_prev ac
        in
        and_then (gen_coefficients (arg_timesteps a) ''increased'' scl) (\<lambda>b2.
        let b2c = map clip01 (cumsum b2);
            bc = map sqrt b2c;
            b2c_prev = pad_prev b2c;
            n = length b2;
            pv = map (\<lambda>i. tdiv (Fin (b2 ! i * b2c_prev ! i)) (Fin (b2c ! i))) [0..<n]
        in
        if pv = [] then Inl IndexError
        else
          let pv0 = pv[0 := Fin 0];
              timesteps = int (length al);
              S = (case arg_sampling_timesteps a of None \<Rightarrow> timesteps | Some s \<Rightarrow> s)
          in
          if \<not> S \<le> timesteps then Inl AssertionError
          else
            let coef1 = map (\<lambda>i. tdiv (Fin (b2c_prev ! i)) (Fin (b2c ! i))) [0..<n];
                coef2 = map (\<lambda>i. tdiv (Fin (b2 ! i * ac_prev ! i - b2c_prev ! i * al ! i))
                                       (Fin (b2c ! i))) [0..<n];
                coef3 = map (\<lambda>i. tdiv (Fin (b2 ! i)) (Fin (b2c ! i))) [0..<n];
                om = map (\<lambda>x. 1 - x) ac
            in
            Inr \<lparr> model = m,
                  channels = m_channels m,
                  self_condition = m_self_condition m,
                  image_size = arg_image_size a,
                  objective = arg_objective a,
                  condition = arg_condition a,
                  input_condition = arg_input_condition a,
                  input_condition_mask = arg_input_condition_mask a,
                  sum_scale = scl,
                  num_timesteps = timesteps,
                  loss_type = arg_loss_type a,
                  sampling_timesteps = S,
                  is_ddim_sampling = (S < timesteps),
                  ddim_sampling_eta = eta,
                  alphas = al,
                  alphas_cumsum = ac,
                  one_minus_alphas_cumsum = om[length om - 1 := 1 / 10 ^ 6],
                  betas2 = b2,
                  betas = map (\<lambda>x. tsqrt (Fin x)) b2,
                  betas2_cumsum = b2c,
                  betas_cumsum = bc,
                  posterior_mean_coef1 = coef1[0 := Fin 0],
                  posterior_mean_coef2 = coef2[0 := Fin 0],
                  posterior_mean_coef3 = coef3[0 := Fin 1],
                  posterior_variance = pv0,
                  posterior_log_variance_clipped =
                    map (\<lambda>v. tlog (tclamp_min (1 / 10 ^ 20) v)) pv0 \<rparr>)))"

section \<open>Forward process and posterior\<close>

text \<open>
  \<^verbatim>\<open>extract(a, t, x_shape)\<close> (\<open>extract\<close> is a keyword of Isabelle): \<^verbatim>\<open>a.gather(-1, t)\<close> reads \<open>a\<close> at the timestep of every
  sample and refuses an index outside \<open>[0, len(a))\<close>; the result has shape \<open>(b, 1, 1, 1)\<close>.
\<close>

definition extract_t :: "'a list \<Rightarrow> int list \<Rightarrow> error + 'a list" where
  "extract_t a t =
     (if list_all (\<lambda>ti. 0 \<le> ti \<and> ti < int (length a)) t
      then Inr (map (\<lambda>ti. a ! nat ti) t)
      else Inl RuntimeError)"

text \<open>
  The random source. A draw is one call of \<^verbatim>\<open>torch.randn\<close> or \<^verbatim>\<open>torch.randn_like\<close>: it
  gives the value at every position of the tensor asked for.
\<close>

type_synonym draw = "nat \<Rightarrow> nat \<Rightarrow> real"

definition randn :: "draw \<Rightarrow> nat \<Rightarrow> nat \<Rightarrow> tensor" where
  "randn g b n = map (\<lambda>i. map (\<lambda>j. Fin (g i j)) [0..<n]) [0..<b]"

definition randn_like :: "draw \<Rightarrow> tensor \<Rightarrow> tensor" where
  "randn_like g x = map (\<lambda>i. map (\<lambda>j. Fin (g i j)) [0..<length (x ! i)]) [0..<length x]"

definition fin_tensor :: "real list list \<Rightarrow> tensor" where
  "fin_tensor x = map (map Fin) x"

text \<open>\<^verbatim>\<open>Diffusion.predict_start_from_res_noise\<close>\<close>

definition predict_start_from_res_noise ::
  "Diffusion \<Rightarrow> tensor \<Rightarrow> int list \<Rightarrow> tensor \<Rightarrow> tensor \<Rightarrow> error + tensor" where
  "predict_start_from_res_noise d x_t t x_res noise =
     and_then (extract_t (map Fin (alphas_cumsum d)) t) (\<lambda>a.
     and_then (coef_op tmul a x_res) (\<lambda>ar.
     and_then (tensor_op tsub x_t ar) (\<lambda>s.
     and_then (extract_t (map Fin (betas_cumsum d)) t) (\<lambda>b.
     and_then (coef_op tmul b noise) (\<lambda>bn.
     tensor_op tsub s bn)))))"

text \<open>\<^verbatim>\<open>Diffusion.q_posterior\<close>\<close>

definition q_posterior ::
  "Diffusion \<Rightarrow> tensor \<Rightarrow> tensor \<Rightarrow> tensor \<Rightarrow> int list
     \<Rightarrow> error + (tensor \<times> tval list \<times> tval list)" where
  "q_posterior d pred_res x_start x_t t =
     and_then (extract_t (posterior_mean_coef1 d) t) (\<lambda>c1.
     and_then (coef_op tmul c1 x_t) (\<lambda>m1.
     and_then (extract_t (posterior_mean_coef2 d) t) (\<lambda>c2.
     and_then (coef_op tmul c2 pred_res) (\<lambda>m2.
     and_then (tensor_op tadd m1 m2) (\<lambda>m12.
     and_then (extract_t (posterior_mean_coef3 d) t) (\<lambda>c3.
     and_then (coef_op tmul c3 x_start) (\<lambda>m3.
     and_then (tensor_op tadd m12 m3) (\<lambda>posterior_mean.
     and_then (extract_t (posterior_variance d) t) (\<lambda>pv.
     and_then (extract_t (posterior_log_variance_clipped d) t) (\<lambda>plv.
     Inr (posterior_mean, pv, plv)))))))))))"

text \<open>
  \<^verbatim>\<open>Diffusion.q_sample\<close>. When no noise is given, it is drawn with the shape of
  \<open>x_start\<close>.
\<close>

definition q_sample ::
  "Diffusion \<Rightarrow> draw \<Rightarrow> tensor \<Rightarrow> tensor \<Rightarrow> int list \<Rightarrow> tensor option \<Rightarrow> error + tensor" where
  "q_sample d g x_start x_res t noise =
     (let noise' = (case noise of Some v \<Rightarrow> v | None \<Rightarrow> randn_like g x_start) in
      and_then (extract_t (map Fin (alphas_cumsum d)) t) (\<lambda>a.
      and_then (coef_op tmul a x_res) (\<lambda>ar.
      and_then (tensor_op tadd x_start ar) (\<lambda>s.
      and_then (extract_t (map Fin (betas_cumsum d)) t) (\<lambda>b.
      and_then (coef_op tmul b noise') (\<lambda>bn.
      tensor_op tadd s bn))))))"

section \<open>Model predictions\<close>

text \<open>
  \<^verbatim>\<open>normalize_to_neg_one_to_one\<close> and \<^verbatim>\<open>unnormalize_to_zero_to_one\<close>: the first on one
  tensor (the program maps it over a list), the second on the list the samplers return.
\<close>

definition normalize_to_neg_one_to_one :: "tensor \<Rightarrow> tensor" where
  "normalize_to_neg_one_to_one img = scalar_op (\<lambda>v. tsub (tmul v (Fin 2)) (Fin 1)) img"

definition unnormalize_to_zero_to_one :: "tensor list \<Rightarrow> tensor list" where
  "unnormalize_to_zero_to_one imgs =
     map (scalar_op (\<lambda>v. tmul (tadd v (Fin 1)) (Fin 0.5))) imgs"

text \<open>Indexing by a Python integer: a negative index counts from the end.\<close>

definition py_index :: "'a list \<Rightarrow> int \<Rightarrow> error + 'a" where
  "py_index a i =
     (let n = int (length a); j = (if i < 0 then i + n else i)
      in if 0 \<le> j \<and> j < n then Inr (a ! nat j) else Inl IndexError)"

text \<open>\<^verbatim>\<open>torch.cat((x, y), dim=1)\<close>: the channels of \<open>y\<close> after those of \<open>x\<close>, sample by sample.\<close>

definition cat_channels :: "tensor \<Rightarrow> tensor \<Rightarrow> error + tensor" where
  "cat_channels x y =
     (if length x = length y then Inr (map2 (@) x y) else Inl RuntimeError)"

text \<open>
  \<^verbatim>\<open>Diffusion.model_predictions\<close>. The arguments \<open>x_input\<close> and \<open>x_input_condition\<close> are
  tensors or the Python number \<open>0\<close> (\<open>None\<close> here), which \<^verbatim>\<open>torch.cat\<close> refuses.
\<close>

definition model_predictions ::
  "Diffusion \<Rightarrow> tensor option \<Rightarrow> tensor \<Rightarrow> int list \<Rightarrow> tensor option \<Rightarrow> tensor option \<Rightarrow> bool
     \<Rightarrow> error + (tensor \<times> tensor \<times> tensor)" where
  "model_predictions d x_input x t x_input_condition x_self_cond clip_denoised =
     and_then
       (if \<not> condition d then Inr x
        else if input_condition d then
          (case x_input of
             None \<Rightarrow> Inl TypeError
           | Some xi \<Rightarrow>
               (case x_input_condition of
                  None \<Rightarrow> Inl TypeError
                | Some xc \<Rightarrow> and_then (cat_channels x xi) (\<lambda>xx. cat_channels xx xc)))
        else
          (case x_input of
             None \<Rightarrow> Inl TypeError
           | Some xi \<Rightarrow> cat_channels x xi))
       (\<lambda>x_in.
          let model_output = forward (model d) x_in t x_self_cond;
              maybe_clip = (if clip_denoised then scalar_op (tclamp (- 1) 1) else id);
              pred_res = maybe_clip (fst model_output);
              pred_noise = snd model_output
          in
          and_then (predict_start_from_res_noise d x t pred_res pred_noise) (\<lambda>x_start.
          Inr (pred_res, pred_noise, maybe_clip x_start)))"

text \<open>\<^verbatim>\<open>Diffusion.p_mean_variance\<close>\<close>

definition p_mean_variance ::
  "Diffusion \<Rightarrow> tensor option \<Rightarrow> tensor \<Rightarrow> int list \<Rightarrow> tensor option \<Rightarrow> tensor option
     \<Rightarrow> error + (tensor \<times> tval list \<times> tval list \<times> tensor)" where
  "p_mean_variance d x_input x t x_input_condition x_self_cond =
     and_then (model_predictions d x_input x t x_input_condition x_self_cond True)
       (\<lambda>(pred_res, pred_noise, x_start).
     and_then (q_posterior d pred_res x_start x t)
       (\<lambda>(model_mean, posterior_variance, posterior_log_variance).
     Inr (model_mean, posterior_variance, posterior_log_variance, x_start)))"

section \<open>Samplers\<close>

text \<open>
  The argument \<open>x_input\<close> of the samplers: the default is the Python number \<open>0\<close>; a caller
  passes a list of tensors (the degraded input, then the optional condition).
\<close>

datatype x_input = XNumber real | XList "tensor list"

text \<open>
  The random source of a sampler numbers its draws: draw \<open>0\<close> is the initial
  \<^verbatim>\<open>torch.randn(shape)\<close>, the following ones are the calls of \<^verbatim>\<open>torch.randn_like\<close> in the
  order in which the loop makes them. The state of a loop is the current image, the last
  predicted start image, the trace and the number of draws made.
\<close>

type_synonym rng = "nat \<Rightarrow> draw"

type_synonym loop_state = "tensor \<times> tensor option \<times> tensor list \<times> nat"

text \<open>\<^verbatim>\<open>Diffusion.p_sample\<close>, with the draw it would make at \<open>t > 0\<close>\<close>

definition p_sample ::
  "Diffusion \<Rightarrow> draw \<Rightarrow> tensor option \<Rightarrow> tensor \<Rightarrow> int \<Rightarrow> tensor option \<Rightarrow> tensor option
     \<Rightarrow> error + (tensor \<times> tensor)" where
  "p_sample d g x_input x t x_input_condition x_self_cond =
     (let batched_times = replicate (length x) t in
      and_then (p_mean_variance d x_input x batched_times x_input_condition x_self_cond)
        (\<lambda>(model_mean, posterior_variance, model_log_variance, x_start).
      let scale = map (\<lambda>v. texp (tmul (Fin 0.5) v)) model_log_variance in
      and_then
        (if t > 0 then
           and_then (coef_op tmul scale (randn_like g x)) (\<lambda>z. tensor_op tadd model_mean z)
         else coef_op (\<lambda>c v. tadd v (tmul c (Fin 0))) scale model_mean)
        (\<lambda>pred_img. Inr (pred_img, x_start))))"

fun p_loop ::
  "Diffusion \<Rightarrow> rng \<Rightarrow> tensor option \<Rightarrow> tensor option \<Rightarrow> bool \<Rightarrow> int list \<Rightarrow> loop_state
     \<Rightarrow> error + loop_state" where
  "p_loop d r x_input x_input_condition only_last [] st = Inr st"
| "p_loop d r x_input x_input_condition only_last (t # ts) (img, x_start, img_list, k) =
     and_then
       (p_sample d (r k) x_input img t x_input_condition
          (if self_condition d then x_start else None))
       (\<lambda>(img', x_start').
          p_loop d r x_input x_input_condition only_last ts
            (img', Some x_start', (if \<not> only_last then img_list @ [img'] else img_list),
             (if t > 0 then k + 1 else k)))"

text \<open>
  The initial image of both samplers: \<^verbatim>\<open>math.sqrt\<close> raises on a negative \<open>sum_scale\<close>.
\<close>

definition initial_img :: "Diffusion \<Rightarrow> draw \<Rightarrow> tensor \<Rightarrow> nat \<times> nat \<Rightarrow> error + tensor" where
  "initial_img d g x_input shape =
     (if condition d then
        (if sum_scale d < 0 then Inl ValueError
         else tensor_op tadd x_input
                (scalar_op (tmul (Fin (sqrt (sum_scale d)))) (randn g (fst shape) (snd shape))))
      else Inr (randn g (fst shape) (snd shape)))"

text \<open>The list both samplers return (the final image alone when \<open>last\<close> is set), before \<^verbatim>\<open>unnormalize_to_zero_to_one\<close>.\<close>

definition returned_list :: "Diffusion \<Rightarrow> bool \<Rightarrow> tensor \<Rightarrow> tensor \<Rightarrow> tensor list \<Rightarrow> tensor list" where
  "returned_list d only_last input_add_noise img img_list =
     (if condition d then
        (if \<not> only_last then input_add_noise # img_list else [input_add_noise, img])
      else
        (if \<not> only_last then img_list else [img]))"

text \<open>\<^verbatim>\<open>Diffusion.p_sample_loop\<close>\<close>

definition p_sample_loop ::
  "Diffusion \<Rightarrow> rng \<Rightarrow> x_input \<Rightarrow> nat \<times> nat \<Rightarrow> bool \<Rightarrow> error + tensor list" where
  "p_sample_loop d r x_input shape only_last =
     (case x_input of
        XNumber v \<Rightarrow> Inl TypeError
      | XList xs \<Rightarrow>
          and_then (if input_condition d then and_then (py_index xs 1) (\<lambda>c. Inr (Some c))
                    else Inr None) (\<lambda>x_input_condition.
          and_then (py_index xs 0) (\<lambda>x_input0.
          and_then (initial_img d (r 0) x_input0 shape) (\<lambda>img.
          and_then (p_loop d r (Some x_input0) x_input_condition only_last
                      (rev (map int [0..<nat (num_timesteps d)])) (img, None, [], 1))
            (\<lambda>(img', x_start, img_list, k).
          Inr (unnormalize_to_zero_to_one (returned_list d only_last img img' img_list)))))))"

text \<open>\<^verbatim>\<open>.int()\<close> on a float: truncation towards zero\<close>

definition trunc_int :: "real \<Rightarrow> int" where
  "trunc_int x = (if 0 \<le> x then \<lfloor>x\<rfloor> else \<lceil>x\<rceil>)"

text \<open>
  Single precision. \<^verbatim>\<open>torch.linspace\<close> without a dtype computes in the default dtype,
  float32, and the sampler reads its timesteps from the result by truncation, so the
  rounding of these operations decides the integers and is modelled: round to nearest, ties
  to even, a significand of 24 bits, exponents from \<open>-126\<close> (below, the spacing of the
  subnormal numbers). Overflow to infinity is not modelled: the values are bounded by the
  number of timesteps.
\<close>

definition pow2 :: "int \<Rightarrow> real" where
  "pow2 e = (if 0 \<le> e then 2 ^ nat e else 1 / 2 ^ nat (- e))"

definition round_half_even :: "real \<Rightarrow> int" where
  "round_half_even q =
     (let f = \<lfloor>q\<rfloor> in
      if q - real_of_int f < 1 / 2 then f
      else if 1 / 2 < q - real_of_int f then f + 1
      else if even f then f else f + 1)"

definition f32_ulp :: "real \<Rightarrow> real" where
  "f32_ulp x = pow2 (max \<lfloor>log 2 \<bar>x\<bar>\<rfloor> (- 126) - 23)"

definition f32 :: "real \<Rightarrow> real" where
  "f32 x = (if x = 0 then 0 else real_of_int (round_half_even (x / f32_ulp x)) * f32_ulp x)"

text \<open>
  \<^verbatim>\<open>torch.linspace(start, end, steps)\<close> in float32. One point is \<open>start\<close>. Otherwise the
  kernel takes \<open>step = (end - start) / (steps - 1)\<close> and computes the point of index \<open>i\<close>
  from \<open>start\<close> below the middle, as \<open>start + step * i\<close>, and from \<open>end\<close> from the middle on, as
  \<open>end - step * (steps - i - 1)\<close>, each by one fused multiply-add, that is with one rounding.
  The integers \<open>steps - 1\<close>, \<open>i\<close> and \<open>steps - i - 1\<close> are converted to float32 first.
\<close>

definition linspace_f32 :: "real \<Rightarrow> real \<Rightarrow> int \<Rightarrow> error + real list" where
  "linspace_f32 start stop steps =
     (if steps < 0 then Inl RuntimeError
      else if steps = 1 then Inr [f32 start]
      else
        let s = f32 start;
            e = f32 stop;
            step = f32 (f32 (e - s) / f32 (real_of_int (steps - 1)));
            halfway = steps div 2
        in Inr (map (\<lambda>i. if int i < halfway then f32 (s + step * f32 (real i))
                         else f32 (e - step * f32 (real_of_int (steps - int i - 1))))
                  [0..<nat steps]))"

text \<open>
  The time sequence of the reduced-step sampler and its consecutive pairs:
  \<^verbatim>\<open>times = list(reversed(torch.linspace(-1, T - 1, steps=S + 1).int().tolist()))\<close> and
  \<^verbatim>\<open>time_pairs = list(zip(times[:-1], times[1:]))\<close>.
\<close>

definition ddim_times :: "int \<Rightarrow> int \<Rightarrow> error + int list" where
  "ddim_times total_timesteps sampling_steps =
     and_then (linspace_f32 (- 1) (real_of_int (total_timesteps - 1)) (sampling_steps + 1))
       (\<lambda>time_seq. Inr (rev (map trunc_int time_seq)))"

definition time_pairs :: "int list \<Rightarrow> (int \<times> int) list" where
  "time_pairs time_seq = zip (butlast time_seq) (tl time_seq)"

text \<open>
  One iteration of the loop of \<^verbatim>\<open>Diffusion.ddim_sample\<close>. The locals of the program that
  no later expression reads (\<open>betas\<close>, \<open>betas_cumsum_next\<close> and the quotient by
  \<open>betas_cumsum\<close>) are left out: computing them raises nothing.
\<close>

definition ddim_step ::
  "Diffusion \<Rightarrow> rng \<Rightarrow> tensor option \<Rightarrow> tensor option \<Rightarrow> nat \<Rightarrow> bool \<Rightarrow> int \<times> int \<Rightarrow> loop_state
     \<Rightarrow> error + loop_state" where
  "ddim_step d r x_input x_input_condition batch only_last p st =
     (case p of (time, time_next) \<Rightarrow>
      case st of (img, x_start, img_list, k) \<Rightarrow>
      let time_cond = replicate batch time;
          self_cond = (if self_condition d then x_start else None);
          eta = ddim_sampling_eta d
      in
      and_then (model_predictions d x_input img time_cond x_input_condition self_cond True)
        (\<lambda>(pred_res, pred_noise, x_start').
      if time_next < 0 then
        Inr (x_start', Some x_start',
             (if \<not> only_last then img_list @ [x_start'] else img_list), k)
      else
        and_then (py_index (alphas_cumsum d) time) (\<lambda>alpha_cumsum.
        and_then (py_index (alphas_cumsum d) time_next) (\<lambda>alpha_cumsum_next.
        let alpha = alpha_cumsum - alpha_cumsum_next in
        and_then (py_index (betas2_cumsum d) time) (\<lambda>b2_cumsum.
        and_then (py_index (betas2_cumsum d) time_next) (\<lambda>b2_cumsum_next.
        let b2 = b2_cumsum - b2_cumsum_next in
        and_then (py_index (betas_cumsum d) time) (\<lambda>b_cumsum.
        let sigma2 = tmul (Fin eta) (tdiv (Fin (b2 * b2_cumsum_next)) (Fin b2_cumsum));
            noise = (if eta = 0 then None else Some (randn_like (r k) img));
            k' = (if eta = 0 then k else k + 1)
        in
        and_then (tensor_op tsub img (scalar_op (tmul (Fin alpha)) pred_res)) (\<lambda>s1.
        and_then (tensor_op tsub s1
                    (scalar_op (tmul (tsub (Fin b_cumsum)
                                           (tsqrt (tsub (Fin b2_cumsum_next) sigma2))))
                       pred_noise)) (\<lambda>s2.
        and_then
          (case noise of
             None \<Rightarrow> Inr (scalar_op (\<lambda>v. tadd v (tmul (tsqrt sigma2) (Fin 0))) s2)
           | Some z \<Rightarrow> tensor_op tadd s2 (scalar_op (tmul (tsqrt sigma2)) z)) (\<lambda>img'.
        Inr (img', Some x_start',
             (if \<not> only_last then img_list @ [img'] else img_list), k')))))))))))"

fun ddim_loop ::
  "Diffusion \<Rightarrow> rng \<Rightarrow> tensor option \<Rightarrow> tensor option \<Rightarrow> nat \<Rightarrow> bool \<Rightarrow> (int \<times> int) list
     \<Rightarrow> loop_state \<Rightarrow> error + loop_state" where
  "ddim_loop d r x_input x_input_condition batch only_last [] st = Inr st"
| "ddim_loop d r x_input x_input_condition batch only_last (p # ps) st =
     and_then (ddim_step d r x_input x_input_condition batch only_last p st)
       (ddim_loop d r x_input x_input_condition batch only_last ps)"

text \<open>\<^verbatim>\<open>Diffusion.ddim_sample\<close>\<close>

definition ddim_sample ::
  "Diffusion \<Rightarrow> rng \<Rightarrow> x_input \<Rightarrow> nat \<times> nat \<Rightarrow> bool \<Rightarrow> error + tensor list" where
  "ddim_sample d r x_input shape only_last =
     (case x_input of
        XNumber v \<Rightarrow> Inl TypeError
      | XList xs \<Rightarrow>
          and_then (if input_condition d then and_then (py_index xs 1) (\<lambda>c. Inr (Some c))
                    else Inr None) (\<lambda>x_input_condition.
          and_then (py_index xs 0) (\<lambda>x_input0.
          and_then (ddim_times (num_timesteps d) (sampling_timesteps d)) (\<lambda>time_seq.
          and_then (initial_img d (r 0) x_input0 shape) (\<lambda>img.
          and_then (ddim_loop d r (Some x_input0) x_input_condition (fst shape) only_last
                      (time_pairs time_seq) (img, None, [], 1))
            (\<lambda>(img', x_start, img_list, k).
          Inr (unnormalize_to_zero_to_one (returned_list d only_last img img' img_list))))))))"

text \<open>The shape of a tensor: the number of samples and the number of elements of a sample.\<close>

definition tensor_shape :: "tensor \<Rightarrow> nat \<times> nat" where
  "tensor_shape x = (length x, (case x of [] \<Rightarrow> 0 | row # rows \<Rightarrow> length row))"

text \<open>
  \<^verbatim>\<open>Diffusion.sample\<close>. In conditional mode the input list is normalised (its first
  tensor only when \<open>input_condition\<close> and \<open>input_condition_mask\<close> are set) and gives the shape.
\<close>

definition sample ::
  "Diffusion \<Rightarrow> rng \<Rightarrow> x_input \<Rightarrow> nat \<Rightarrow> bool \<Rightarrow> error + tensor list" where
  "sample d r x_input batch_size only_last =
     (let sample_fn = (if \<not> is_ddim_sampling d then p_sample_loop else ddim_sample) in
      if condition d then
        (case x_input of
           XNumber v \<Rightarrow> Inl TypeError
         | XList xs \<Rightarrow>
             and_then
               (if input_condition d \<and> input_condition_mask d then
                  and_then (py_index xs 0) (\<lambda>x0.
                  Inr (xs[0 := normalize_to_neg_one_to_one x0]))
                else Inr (map normalize_to_neg_one_to_one xs)) (\<lambda>xs'.
             and_then (py_index xs' 0) (\<lambda>x0.
             sample_fn d r (XList xs') (tensor_shape x0) only_last)))
      else
        sample_fn d r x_input (batch_size, channels d * image_size d * image_size d) only_last)"

section \<open>Training loss\<close>

text \<open>
  The argument \<open>imgs\<close> of \<^verbatim>\<open>p_losses\<close> is a list of tensors (conditional training: the
  target, the degraded input and the optional condition) or one tensor (generation).
\<close>

datatype imgs = ImgList "tensor list" | ImgTensor tensor

text \<open>
  The first lines of \<^verbatim>\<open>p_losses\<close>: whether \<open>imgs\<close> is a list, then \<open>x_input_condition\<close>,
  \<open>x_input\<close> and \<open>x_start\<close>. \<open>None\<close> stands for the Python number \<open>0\<close>; in the generation
  branch \<open>x_input_condition\<close> is not assigned at all.
\<close>

definition p_losses_inputs ::
  "Diffusion \<Rightarrow> imgs \<Rightarrow> error + (bool \<times> tensor option \<times> tensor option \<times> tensor)" where
  "p_losses_inputs d images =
     (case images of
        ImgList l \<Rightarrow>
          and_then (if input_condition d then and_then (py_index l 2) (\<lambda>c. Inr (Some c))
                    else Inr None) (\<lambda>x_input_condition.
          and_then (py_index l 1) (\<lambda>x_input.
          and_then (py_index l 0) (\<lambda>x_start.
          Inr (True, x_input_condition, Some x_input, x_start))))
      | ImgTensor x_start \<Rightarrow> Inr (False, None, None, x_start))"

text \<open>\<^verbatim>\<open>x_res = x_input - x_start\<close>, where \<open>x_input\<close> is a tensor or the number \<open>0\<close>\<close>

definition residual :: "tensor option \<Rightarrow> tensor \<Rightarrow> error + tensor" where
  "residual x_input x_start =
     (case x_input of
        Some xi \<Rightarrow> tensor_op tsub xi x_start
      | None \<Rightarrow> Inr (scalar_op (tsub (Fin 0)) x_start))"

text \<open>
  The property \<^verbatim>\<open>loss_fn\<close> with \<^verbatim>\<open>reduction='none'\<close>: the elementwise absolute or squared
  error.
\<close>

definition loss_fn :: "Diffusion \<Rightarrow> error + (tval \<Rightarrow> tval \<Rightarrow> tval)" where
  "loss_fn d =
     (if loss_type d = ''l1'' then Inr (\<lambda>u v. tabs (tsub u v))
      else if loss_type d = ''l2'' then Inr (\<lambda>u v. tmul (tsub u v) (tsub u v))
      else Inl ValueError)"

text \<open>The mean of a list of elements: the mean of no element is a NaN.\<close>

definition tmean :: "tval list \<Rightarrow> tval" where
  "tmean vs = tdiv (foldl tadd (Fin 0) vs) (Fin (real (length vs)))"

text \<open>
  \<^verbatim>\<open>Diffusion.p_losses\<close>. \<open>g\<close> is the draw of the default noise and \<open>coin\<close> the value of
  \<^verbatim>\<open>random.random()\<close>, which the program reads only when self-conditioning is on. The
  two targets are \<open>x_res\<close> and the noise; the loss is reduced to the mean of every sample and
  then to the mean of the batch.
\<close>

definition p_losses ::
  "Diffusion \<Rightarrow> draw \<Rightarrow> real \<Rightarrow> imgs \<Rightarrow> int list \<Rightarrow> tensor option \<Rightarrow> error + tval" where
  "p_losses d g coin images t noise =
     and_then (p_losses_inputs d images) (\<lambda>(is_list, x_input_condition, x_input, x_start).
     let noise' = (case noise of Some z \<Rightarrow> z | None \<Rightarrow> randn_like g x_start) in
     and_then (residual x_input x_start) (\<lambda>x_res.
     and_then (q_sample d g x_start x_res t (Some noise')) (\<lambda>x.
     and_then
       (if self_condition d \<and> coin < 0.5 then
          (if input_condition d \<and> \<not> is_list then Inl UnboundLocalError
           else
             and_then
               (model_predictions d x_input x t
                  (if input_condition d then x_input_condition else None) None True)
               (\<lambda>(pred_res, pred_noise, pred_x_start). Inr (Some pred_x_start)))
        else Inr None) (\<lambda>x_self_cond.
     and_then
       (if \<not> condition d then Inr x
        else if input_condition d then
          (if \<not> is_list then Inl UnboundLocalError
           else
             (case x_input of
                None \<Rightarrow> Inl TypeError
              | Some xi \<Rightarrow>
                  (case x_input_condition of
                     None \<Rightarrow> Inl TypeError
                   | Some xc \<Rightarrow> and_then (cat_channels x xi) (\<lambda>xx. cat_channels xx xc))))
        else
          (case x_input of
             None \<Rightarrow> Inl TypeError
           | Some xi \<Rightarrow> cat_channels x xi)) (\<lambda>x_in.
     let model_out = forward (model d) x_in t x_self_cond in
     and_then (loss_fn d) (\<lambda>l.
     and_then (tensor_op l (fst model_out) x_res) (\<lambda>loss0.
     and_then (tensor_op l (snd model_out) noise') (\<lambda>loss1.
     and_then (tensor_op tadd (scalar_op (tadd (Fin 0)) loss0) loss1) (\<lambda>loss.
     Inr (tmean (map tmean loss)))))))))))"

section \<open>Closed forms used in the proofs\<close>

text \<open>The increasing sequence \<open>i / (T (T + 1) / 2)\<close>, \<open>i = 1..T\<close>.\<close>

definition ramp :: "nat \<Rightarrow> real list" where
  "ramp n = map (\<lambda>i. real (Suc i) / (0.5 * real n * (real n + 1))) [0..<n]"

text \<open>
  The point of index \<open>i\<close> of \<^verbatim>\<open>torch.linspace(-1, T - 1, steps=S + 1)\<close> in float32, for
  \<open>S \<ge> 1\<close>.
\<close>

definition ddim_point :: "int \<Rightarrow> int \<Rightarrow> nat \<Rightarrow> real" where
  "ddim_point T S i =
     (let e = f32 (real_of_int (T - 1));
          step = f32 (f32 (e + 1) / f32 (real_of_int S))
      in if int i < (S + 1) div 2 then f32 (- 1 + step * f32 (real i))
         else f32 (e - step * f32 (real_of_int (S - int i))))"

section \<open>Finite tensors and value ranges\<close>

text \<open>
  A finite element is neither an infinity nor a NaN; a denoiser is finite when both its
  estimates are finite tensors on every input.
\<close>

definition is_fin :: "tval \<Rightarrow> bool" where
  "is_fin v = (case v of Fin a \<Rightarrow> True | _ \<Rightarrow> False)"

definition in_range :: "real \<Rightarrow> real \<Rightarrow> tval \<Rightarrow> bool" where
  "in_range lo hi v = (case v of Fin a \<Rightarrow> lo \<le> a \<and> a \<le> hi | _ \<Rightarrow> False)"

definition finite_tensor :: "tensor \<Rightarrow> bool" where
  "finite_tensor x = list_all (list_all is_fin) x"

definition finite_denoiser :: "denoiser \<Rightarrow> bool" where
  "finite_denoiser f = (\<forall>x t c. finite_tensor (fst (f x t c)) \<and> finite_tensor (snd (f x t c)))"

section \<open>Example instances\<close>

text \<open>
  A conditional instance with three timesteps and two sampling steps, whose denoiser
  predicts the residual \<open>1\<close> and the noise \<open>0\<close> on one sample of one element; the
  arguments of an unconditional instance with two timesteps and \<open>sum_scale = -1\<close>; and an
  unconditional instance with three timesteps whose denoiser predicts a zero residual and a
  zero noise.
\<close>

definition example_unet :: unet where
  "example_unet = \<lparr> m_channels = 1, out_dim = 1, m_self_condition = False,
      random_or_learned_sinusoidal_cond = False,
      forward = (\<lambda>x t c. ([[Fin 1]], [[Fin 0]])) \<rparr>"

definition example_args :: diffusion_args where
  "example_args = \<lparr> arg_image_size = 1, arg_timesteps = 3, arg_sampling_timesteps = Some 2,
      arg_loss_type = ''l1'', arg_objective = ''pred_res_noise'', arg_ddim_sampling_eta = 0,
      arg_condition = True, arg_sum_scale = None, arg_input_condition = False,
      arg_input_condition_mask = False \<rparr>"


definition negative_scale_args :: diffusion_args where
  "negative_scale_args = \<lparr> arg_image_size = 1, arg_timesteps = 2, arg_sampling_timesteps = None,
      arg_loss_type = ''l1'', arg_objective = ''pred_res_noise'', arg_ddim_sampling_eta = 0,
      arg_condition = False, arg_sum_scale = Some (- 1), arg_input_condition = False,
      arg_input_condition_mask = False \<rparr>"

definition zero_unet :: unet where
  "zero_unet = \<lparr> m_channels = 1, out_dim = 1, m_self_condition = False,
      random_or_learned_sinusoidal_cond = False,
      forward = (\<lambda>x t c. ([[Fin 0]], [[Fin 0]])) \<rparr>"

definition generation_args :: diffusion_args where
  "generation_args = \<lparr> arg_image_size = 1, arg_timesteps = 3, arg_sampling_timesteps = None,
      arg_loss_type = ''l1'', arg_objective = ''pred_res_noise'', arg_ddim_sampling_eta = 0,
      arg_condition = False, arg_sum_scale = None, arg_input_condition = False,
      arg_input_condition_mask = False \<rparr>"

section \<open>Properties of the coefficient schedule\<close>

lemma linspace_ramp: "linspace 1 (real n) (int n) = Inr (map (\<lambda>i. real (Suc i)) [0..<n])"
proof (cases "n = 1")
  case True then show ?thesis by (simp add: linspace_def)
next
  case False
  then show ?thesis by (cases "n = 0") (auto simp: linspace_def of_nat_diff)
qed

lemma sum_ramp: "(\<Sum>i\<leftarrow>[0..<n]. real (Suc i)) = real n * (real n + 1) / 2"
  by (induction n) (auto simp: field_simps)

lemma length_ramp [simp]: "length (ramp n) = n"
  by (simp add: ramp_def)

lemma ramp_eq_Nil [simp]: "ramp n = [] \<longleftrightarrow> n = 0"
  by (simp add: ramp_def)

lemma ramp_pos: "x \<in> set (ramp n) \<Longrightarrow> 0 < x"
  by (auto simp: ramp_def)

lemma ramp_nonneg: "\<forall>x\<in>set (ramp n). 0 \<le> x"
  using ramp_pos by (auto intro: less_imp_le)

lemma sum_list_div_const: "(\<Sum>x\<leftarrow>xs. f x / (c::real)) = (\<Sum>x\<leftarrow>xs. f x) / c"
  by (induction xs) (simp_all add: add_divide_distrib)

lemma sum_list_ramp: "0 < n \<Longrightarrow> sum_list (ramp n) = 1"
proof -
  assume n: "0 < n"
  have "sum_list (ramp n) = (\<Sum>i\<leftarrow>[0..<n]. real (Suc i)) / (0.5 * real n * (real n + 1))"
    unfolding ramp_def by (simp only: sum_list_div_const o_def map_map)
  also have "\<dots> = (real n * (real n + 1) / 2) / (0.5 * real n * (real n + 1))"
    by (simp only: sum_ramp)
  also have "\<dots> = 1" using n by simp
  finally show ?thesis .
qed

lemma raw_increased: "raw_coefficients (int n) ''increased'' = Inr (ramp n)"
  by (simp add: raw_coefficients_def linspace_ramp ramp_def Let_def o_def)

lemma raw_decreased: "raw_coefficients (int n) ''decreased'' = Inr (rev (ramp n))"
  by (simp add: raw_coefficients_def linspace_ramp ramp_def Let_def o_def rev_map)

lemma raw_uniform:
  "schedule \<noteq> ''increased'' \<Longrightarrow> schedule \<noteq> ''decreased'' \<Longrightarrow> 0 < n \<Longrightarrow>
   raw_coefficients (int n) schedule = Inr (replicate n (1 / real n))"
  by (simp add: raw_coefficients_def full_def)

lemma raw_length: "raw_coefficients T s = Inr xs \<Longrightarrow> 0 \<le> T \<and> length xs = nat T"
  by (auto simp: raw_coefficients_def linspace_def full_def Let_def split: if_splits sum.splits)

lemma gen_length: "gen_coefficients T s c = Inr xs \<Longrightarrow> 0 \<le> T \<and> length xs = nat T"
  by (auto simp: gen_coefficients_def dest: raw_length split: if_splits sum.splits)

lemma gen_increased: "0 < n \<Longrightarrow> gen_coefficients (int n) ''increased'' c = Inr (map (\<lambda>x. x * c) (ramp n))"
  by (simp add: gen_coefficients_def raw_increased sum_assertion_def sum_list_ramp)

lemma gen_decreased: "0 < n \<Longrightarrow> gen_coefficients (int n) ''decreased'' 1 = Inr (rev (ramp n))"
  by (simp add: gen_coefficients_def raw_decreased sum_assertion_def sum_list_ramp rev_map[symmetric])

lemma sum_assertion_one_sided: "sum_assertion xs \<longleftrightarrow> sum_list xs < 1 + 1 / 10 ^ 10"
  by (auto simp: sum_assertion_def)

lemma gen_coefficients_assertion_passes:
  assumes "0 < T"
  shows "\<exists>xs. raw_coefficients T schedule = Inr xs \<and> sum_list xs = 1 \<and> sum_assertion xs
     \<and> gen_coefficients T schedule c = Inr (map (\<lambda>x. x * c) xs)"
proof -
  from assms obtain n where n: "T = int n" "0 < n" by (metis zero_less_imp_eq_int)
  consider "schedule = ''increased''" | "schedule = ''decreased''"
    | "schedule \<noteq> ''increased''" "schedule \<noteq> ''decreased''" by blast
  then show ?thesis
  proof cases
    case 1
    then show ?thesis using n
      by (simp add: gen_coefficients_def raw_increased sum_assertion_def sum_list_ramp)
  next
    case 2
    then show ?thesis using n
      by (simp add: gen_coefficients_def raw_decreased sum_assertion_def sum_list_ramp)
  next
    case 3
    then show ?thesis using n
      by (simp add: gen_coefficients_def raw_uniform sum_assertion_def sum_list_replicate)
  qed
qed

lemma length_cumsum_from [simp]: "length (cumsum_from acc xs) = length xs"
  by (induction xs arbitrary: acc) simp_all

lemma length_cumsum [simp]: "length (cumsum xs) = length xs"
  by (simp add: cumsum_def)

lemma cumsum_from_nth:
  "i < length xs \<Longrightarrow> cumsum_from acc xs ! i = acc + sum_list (take (Suc i) xs)"
proof (induction xs arbitrary: acc i)
  case Nil then show ?case by simp
next
  case (Cons x xs)
  then show ?case by (cases i) (simp_all add: add.assoc)
qed

lemma cumsum_nth: "i < length xs \<Longrightarrow> cumsum xs ! i = sum_list (take (Suc i) xs)"
  by (simp add: cumsum_def cumsum_from_nth)

lemma cumsum_step:
  "Suc k < length xs \<Longrightarrow> cumsum xs ! Suc k = cumsum xs ! k + xs ! Suc k"
  by (simp add: cumsum_nth take_Suc_conv_app_nth[of "Suc k"])

lemma sum_list_take_mono:
  assumes "\<forall>x\<in>set xs. (0::real) \<le> x" "i \<le> j"
  shows "sum_list (take i xs) \<le> sum_list (take j xs)"
proof -
  have "take j xs = take i xs @ take (j - i) (drop i xs)"
    using assms(2) by (metis le_add_diff_inverse take_add)
  moreover have "0 \<le> sum_list (take (j - i) (drop i xs))"
    using assms(1) by (intro sum_list_nonneg) (meson in_set_dropD in_set_takeD)
  ultimately show ?thesis by simp
qed

lemma sum_list_take_le_total:
  assumes "\<forall>x\<in>set xs. (0::real) \<le> x"
  shows "sum_list (take i xs) \<le> sum_list xs"
  using sum_list_take_mono[OF assms, of i "max i (length xs)"] by simp

lemma sum_list_pos_nonempty:
  "xs \<noteq> [] \<Longrightarrow> \<forall>x\<in>set xs. (0::real) < x \<Longrightarrow> 0 < sum_list xs"
proof (induction xs)
  case Nil then show ?case by simp
next
  case (Cons x xs)
  then show ?case by (cases xs) (simp_all add: add_pos_pos)
qed

lemma ramp_partial_pos: "i < n \<Longrightarrow> 0 < sum_list (take (Suc i) (ramp n))"
proof -
  assume "i < n"
  then have "take (Suc i) (ramp n) \<noteq> []" by (auto simp: ramp_def)
  moreover have "\<forall>x\<in>set (take (Suc i) (ramp n)). 0 < x"
    using ramp_pos by (meson in_set_takeD)
  ultimately show ?thesis by (rule sum_list_pos_nonempty)
qed

lemma ramp_partial_le1: "0 < n \<Longrightarrow> sum_list (take i (ramp n)) \<le> 1"
  using sum_list_take_le_total[OF ramp_nonneg, of i n] sum_list_ramp by simp

lemma sum_list_scaled: "(\<Sum>x\<leftarrow>xs. x * (c::real)) = sum_list xs * c"
  by (induction xs) (simp_all add: distrib_right)

lemma cumsum_scaled_ramp_nth:
  "i < n \<Longrightarrow> cumsum (map (\<lambda>x. x * c) (ramp n)) ! i = sum_list (take (Suc i) (ramp n)) * c"
  by (simp add: cumsum_nth take_map sum_list_scaled)

lemma clip01_mono: "x \<le> y \<Longrightarrow> clip01 x \<le> clip01 y"
  by (auto simp: clip01_def)

lemma clip01_nonpos: "x \<le> 0 \<Longrightarrow> clip01 x = 0"
  by (auto simp: clip01_def)

lemma clip01_id: "0 \<le> x \<Longrightarrow> x \<le> 1 \<Longrightarrow> clip01 x = x"
  by (auto simp: clip01_def)

lemma clip01_pos: "0 < x \<Longrightarrow> 0 < clip01 x"
  by (auto simp: clip01_def)

lemma sorted_clipped_cumsum: "sorted (map clip01 (cumsum (map (\<lambda>x. x * c) (ramp n))))"
proof (subst sorted_iff_nth_mono, intro allI impI)
  fix i j
  assume ij: "i \<le> j" and "j < length (map clip01 (cumsum (map (\<lambda>x. x * c) (ramp n))))"
  then have j: "j < n" and i: "i < n" by simp_all
  let ?P = "\<lambda>k. sum_list (take (Suc k) (ramp n))"
  have P: "?P i \<le> ?P j" using sum_list_take_mono[OF ramp_nonneg] ij by simp
  have Pi: "0 < ?P i" and Pj: "0 < ?P j" using ramp_partial_pos i j by simp_all
  have "clip01 (?P i * c) \<le> clip01 (?P j * c)"
  proof (cases "0 \<le> c")
    case True
    then show ?thesis using P by (intro clip01_mono mult_right_mono)
  next
    case False
    then have "?P i * c \<le> 0" "?P j * c \<le> 0"
      using Pi Pj by (simp_all add: mult_le_0_iff)
    then show ?thesis by (simp add: clip01_nonpos)
  qed
  then show "map clip01 (cumsum (map (\<lambda>x. x * c) (ramp n))) ! i
           \<le> map clip01 (cumsum (map (\<lambda>x. x * c) (ramp n))) ! j"
    using i j by (simp add: cumsum_scaled_ramp_nth)
qed

lemma alphas_cumsum_last:
  assumes "0 < n"
  shows "map clip01 (cumsum (rev (ramp n))) ! (n - 1) = 1"
proof -
  have "cumsum (rev (ramp n)) ! (n - 1) = sum_list (take n (rev (ramp n)))"
    using assms by (simp add: cumsum_nth)
  also have "\<dots> = 1" using assms by (simp add: sum_list_ramp)
  finally show ?thesis using assms by (simp add: clip01_def)
qed

section \<open>Construction of the schedule\<close>

lemma init_gen:
  assumes "Diffusion_init m a = Inr d"
  obtains n where "0 < n" "arg_timesteps a = int n"
    "gen_coefficients (int n) ''decreased'' 1 = Inr (rev (ramp n))"
    "\<And>c. gen_coefficients (int n) ''increased'' c = Inr (map (\<lambda>x. x * c) (ramp n))"
proof -
  let ?scl = "(if arg_condition a then truthy_or (arg_sum_scale a) 0.01
                   else truthy_or (arg_sum_scale a) 1)"
  from assms obtain al b2 where
    al: "gen_coefficients (arg_timesteps a) ''decreased'' 1 = Inr al" and
    b2: "gen_coefficients (arg_timesteps a) ''increased'' ?scl = Inr b2"
    by (auto simp: Diffusion_init_def and_then_def Let_def split: if_splits sum.splits)
  have ne: "b2 \<noteq> []"
    using assms al b2
    by (auto simp: Diffusion_init_def and_then_def Let_def split: if_splits)
  from gen_length[OF b2] ne have "0 < arg_timesteps a" by (cases "arg_timesteps a = 0") auto
  then obtain n where n: "arg_timesteps a = int n" "0 < n"
    by (metis zero_less_imp_eq_int)
  show ?thesis
    using that[OF n(2) n(1)] n gen_decreased gen_increased by simp
qed

lemma init_schedule:
  assumes "Diffusion_init m a = Inr d"
  shows "\<exists>n>0. arg_timesteps a = int n \<and> num_timesteps d = int n
     \<and> alphas d = rev (ramp n)
     \<and> betas2 d = map (\<lambda>x. x * sum_scale d) (ramp n)
     \<and> alphas_cumsum d = map clip01 (cumsum (alphas d))
     \<and> betas2_cumsum d = map clip01 (cumsum (betas2 d))
     \<and> betas_cumsum d = map sqrt (betas2_cumsum d)
     \<and> one_minus_alphas_cumsum d = (map (\<lambda>x. 1 - x) (alphas_cumsum d))[n - 1 := 1 / 10 ^ 6]"
proof -
  from init_gen[OF assms] obtain n where n: "0 < n" "arg_timesteps a = int n"
    "gen_coefficients (int n) ''decreased'' 1 = Inr (rev (ramp n))"
    "\<And>c. gen_coefficients (int n) ''increased'' c = Inr (map (\<lambda>x. x * c) (ramp n))"
    by blast
  show ?thesis
    using assms n(1,2)
    apply (intro exI[of _ n])
    by (auto simp: Diffusion_init_def n(3,4) and_then_def Let_def
          simp del: tdiv.simps tlog.simps tclamp_min.simps split: if_splits)
qed

lemma init_posterior:
  assumes "Diffusion_init m a = Inr d"
  shows "posterior_mean_coef1 d =
           (map (\<lambda>i. tdiv (Fin (pad_prev (betas2_cumsum d) ! i)) (Fin (betas2_cumsum d ! i)))
              [0..<length (betas2 d)])[0 := Fin 0]
     \<and> posterior_mean_coef2 d =
           (map (\<lambda>i. tdiv (Fin (betas2 d ! i * pad_prev (alphas_cumsum d) ! i
                                 - pad_prev (betas2_cumsum d) ! i * alphas d ! i))
                           (Fin (betas2_cumsum d ! i)))
              [0..<length (betas2 d)])[0 := Fin 0]
     \<and> posterior_mean_coef3 d =
           (map (\<lambda>i. tdiv (Fin (betas2 d ! i)) (Fin (betas2_cumsum d ! i)))
              [0..<length (betas2 d)])[0 := Fin 1]
     \<and> posterior_variance d =
           (map (\<lambda>i. tdiv (Fin (betas2 d ! i * pad_prev (betas2_cumsum d) ! i))
                           (Fin (betas2_cumsum d ! i)))
              [0..<length (betas2 d)])[0 := Fin 0]
     \<and> posterior_log_variance_clipped d =
           map (\<lambda>v. tlog (tclamp_min (1 / 10 ^ 20) v)) (posterior_variance d)"
proof -
  from init_gen[OF assms] obtain n where n: "0 < n" "arg_timesteps a = int n"
    "gen_coefficients (int n) ''decreased'' 1 = Inr (rev (ramp n))"
    "\<And>c. gen_coefficients (int n) ''increased'' c = Inr (map (\<lambda>x. x * c) (ramp n))"
    by blast
  show ?thesis
    using assms n(1,2)
    by (auto simp: Diffusion_init_def n(3,4) and_then_def Let_def
          simp del: tdiv.simps tlog.simps tclamp_min.simps split: if_splits)
qed

lemma init_flags:
  assumes "Diffusion_init m a = Inr d"
  shows "model d = m \<and> channels d = m_channels m \<and> self_condition d = m_self_condition m
     \<and> image_size d = arg_image_size a \<and> condition d = arg_condition a
     \<and> input_condition d = arg_input_condition a
     \<and> input_condition_mask d = arg_input_condition_mask a
     \<and> sum_scale d = (if arg_condition a then truthy_or (arg_sum_scale a) 0.01
                      else truthy_or (arg_sum_scale a) 1)
     \<and> loss_type d = arg_loss_type a
     \<and> sampling_timesteps d =
         (case arg_sampling_timesteps a of None \<Rightarrow> num_timesteps d | Some s \<Rightarrow> s)
     \<and> sampling_timesteps d \<le> num_timesteps d
     \<and> is_ddim_sampling d = (sampling_timesteps d < num_timesteps d)
     \<and> ddim_sampling_eta d = (if arg_condition a then 0 else arg_ddim_sampling_eta a)"
proof -
  from init_gen[OF assms] obtain n where n: "0 < n" "arg_timesteps a = int n"
    "gen_coefficients (int n) ''decreased'' 1 = Inr (rev (ramp n))"
    "\<And>c. gen_coefficients (int n) ''increased'' c = Inr (map (\<lambda>x. x * c) (ramp n))"
    by blast
  show ?thesis
    using assms n(1,2)
    by (auto simp: Diffusion_init_def n(3,4) and_then_def Let_def split: if_splits option.splits)
qed

lemma init_succeeds:
  assumes "m_channels m = out_dim m" "\<not> random_or_learned_sinusoidal_cond m"
    "0 < arg_timesteps a"
    "case arg_sampling_timesteps a of None \<Rightarrow> True | Some s \<Rightarrow> s \<le> arg_timesteps a"
  shows "\<exists>d. Diffusion_init m a = Inr d"
proof -
  from assms(3) obtain n where n: "arg_timesteps a = int n" "0 < n"
    by (metis zero_less_imp_eq_int)
  have g: "gen_coefficients (int n) ''decreased'' 1 = Inr (rev (ramp n))"
    "\<And>c. gen_coefficients (int n) ''increased'' c = Inr (map (\<lambda>x. x * c) (ramp n))"
    using n gen_decreased gen_increased by simp_all
  show ?thesis
    using assms n
    by (simp add: Diffusion_init_def g and_then_def Let_def split: option.splits)
qed

lemma init_boundary:
  assumes "Diffusion_init m a = Inr d"
  shows "posterior_mean_coef1 d ! 0 = Fin 0" "posterior_mean_coef2 d ! 0 = Fin 0"
    "posterior_mean_coef3 d ! 0 = Fin 1" "posterior_variance d ! 0 = Fin 0"
    "length (posterior_mean_coef1 d) = nat (num_timesteps d)"
    "length (posterior_mean_coef2 d) = nat (num_timesteps d)"
    "length (posterior_mean_coef3 d) = nat (num_timesteps d)"
    "length (posterior_variance d) = nat (num_timesteps d)"
    "length (posterior_log_variance_clipped d) = nat (num_timesteps d)"
    "0 < num_timesteps d"
proof -
  from init_schedule[OF assms] obtain n where n: "0 < n" "num_timesteps d = int n"
    "length (betas2 d) = n" by auto
  note p = init_posterior[OF assms]
  show "posterior_mean_coef1 d ! 0 = Fin 0" using n p by simp
  show "posterior_mean_coef2 d ! 0 = Fin 0" using n p by simp
  show "posterior_mean_coef3 d ! 0 = Fin 1" using n p by simp
  show "posterior_variance d ! 0 = Fin 0" using n p by simp
  show "length (posterior_mean_coef1 d) = nat (num_timesteps d)" using n p by simp
  show "length (posterior_mean_coef2 d) = nat (num_timesteps d)" using n p by simp
  show "length (posterior_mean_coef3 d) = nat (num_timesteps d)" using n p by simp
  show "length (posterior_variance d) = nat (num_timesteps d)" using n p by simp
  show "length (posterior_log_variance_clipped d) = nat (num_timesteps d)" using n p by simp
  show "0 < num_timesteps d" using n by simp
qed

lemma truthy_or_nonzero: "e \<noteq> 0 \<Longrightarrow> truthy_or v e \<noteq> 0"
  by (simp add: truthy_or_def split: option.splits)

lemma init_sum_scale_nonzero:
  assumes "Diffusion_init m a = Inr d"
  shows "sum_scale d \<noteq> 0"
  using init_flags[OF assms] truthy_or_nonzero[of "1 / 100" "arg_sum_scale a"]
    truthy_or_nonzero[of 1 "arg_sum_scale a"]
  by (auto split: if_splits)

lemma betas2_cumsum_pos:
  assumes "Diffusion_init m a = Inr d" "0 < sum_scale d" "sum_scale d \<le> 1"
    "int t < num_timesteps d"
  shows "betas2_cumsum d ! t = cumsum (betas2 d) ! t" "0 < betas2_cumsum d ! t"
proof -
  from init_schedule[OF assms(1)] obtain n where n: "0 < n" "num_timesteps d = int n"
    and b2: "betas2 d = map (\<lambda>x. x * sum_scale d) (ramp n)"
    and bc: "betas2_cumsum d = map clip01 (cumsum (betas2 d))"
    by auto
  from assms(4) n have t: "t < n" by simp
  let ?P = "sum_list (take (Suc t) (ramp n))"
  have c: "cumsum (betas2 d) ! t = ?P * sum_scale d"
    using t by (simp add: b2 cumsum_scaled_ramp_nth)
  have P: "0 < ?P" "?P \<le> 1" using ramp_partial_pos[OF t] ramp_partial_le1[OF n(1)] by simp_all
  have pos: "0 < ?P * sum_scale d" using P assms(2) by simp
  have "?P * sum_scale d \<le> 1 * 1"
    using P assms(2,3) by (intro mult_mono) simp_all
  then have le: "?P * sum_scale d \<le> 1" by simp
  show "betas2_cumsum d ! t = cumsum (betas2 d) ! t"
    using t pos le by (simp add: bc b2 c[unfolded b2] clip01_id)
  then show "0 < betas2_cumsum d ! t" using pos c by simp
qed

lemma betas2_cumsum_all_pos:
  assumes "Diffusion_init m a = Inr d" "0 < sum_scale d"
  shows "\<forall>v\<in>set (betas2_cumsum d). 0 < v"
proof -
  from init_schedule[OF assms(1)] obtain n where n: "0 < n"
    and b2: "betas2 d = map (\<lambda>x. x * sum_scale d) (ramp n)"
    and bc: "betas2_cumsum d = map clip01 (cumsum (betas2 d))"
    by auto
  have "0 < betas2_cumsum d ! t" if "t < n" for t
  proof -
    have "0 < sum_list (take (Suc t) (ramp n)) * sum_scale d"
      using ramp_partial_pos[OF that] assms(2) by simp
    then show ?thesis using that by (simp add: bc b2 cumsum_scaled_ramp_nth clip01_pos)
  qed
  moreover have "length (betas2_cumsum d) = n" by (simp add: bc b2)
  ultimately show ?thesis by (auto simp: in_set_conv_nth)
qed

section \<open>Tensor operations on finite tensors\<close>

lemma map2_nth:
  "length xs = length ys \<Longrightarrow> map2 f xs ys = map (\<lambda>i. f (xs ! i) (ys ! i)) [0..<length xs]"
  by (auto intro!: nth_equalityI)

lemma same_shape_nth:
  assumes "map length x = map length y"
  shows "length x = length y" and "\<And>i. i < length x \<Longrightarrow> length (x ! i) = length (y ! i)"
proof -
  show l: "length x = length y" using assms by (metis length_map)
  fix i assume "i < length x"
  then show "length (x ! i) = length (y ! i)"
    using assms l by (metis nth_map)
qed

lemma shape_fin_tensor [simp]: "map length (fin_tensor x) = map length x"
  by (simp add: fin_tensor_def)

lemma length_fin_tensor [simp]: "length (fin_tensor x) = length x"
  by (simp add: fin_tensor_def)

lemma shape_rows:
  "map length (map (\<lambda>i. map (f i) (x ! i)) [0..<length x]) = map length x"
  by (auto intro!: nth_equalityI)

lemma shape_idx:
  "map length (map (\<lambda>i. map (h i) [0..<length (x ! i)]) [0..<length x]) = map length x"
  by (auto intro!: nth_equalityI)

lemma tsub_Fin [simp]: "tsub (Fin u) (Fin v) = Fin (u - v)"
  by (simp add: tsub_def)

lemma extract_t_in_range:
  "list_all (\<lambda>ti. 0 \<le> ti \<and> ti < int (length a)) t \<Longrightarrow>
   extract_t a t = Inr (map (\<lambda>ti. a ! nat ti) t)"
  by (simp add: extract_t_def)

lemma extract_t_zeros:
  "a \<noteq> [] \<Longrightarrow> extract_t a (replicate b 0) = Inr (replicate b (a ! 0))"
  by (simp add: extract_t_def list_all_iff map_replicate)

lemma coef_op_fin:
  assumes "length cs = length x"
  shows "coef_op tmul (map Fin cs) (fin_tensor x) =
           Inr (fin_tensor (map (\<lambda>i. map (\<lambda>v. cs ! i * v) (x ! i)) [0..<length x]))"
  using assms
  by (auto simp: coef_op_def fin_tensor_def map2_nth intro!: nth_equalityI)

lemma coef_op_replicate_fin:
  "coef_op tmul (replicate (length x) (Fin c)) (fin_tensor x)
     = Inr (fin_tensor (map (map (\<lambda>v. c * v)) x))"
  by (auto simp: coef_op_def fin_tensor_def map2_nth intro!: nth_equalityI)

lemma tensor_op_fin:
  assumes "map length x = map length y"
    and "\<And>u v. f (Fin u) (Fin v) = Fin (h u v)"
  shows "tensor_op f (fin_tensor x) (fin_tensor y) =
           Inr (fin_tensor (map (\<lambda>i. map (\<lambda>j. h (x ! i ! j) (y ! i ! j)) [0..<length (x ! i)])
                              [0..<length x]))"
  using same_shape_nth[OF assms(1)] assms
  by (auto simp: tensor_op_def fin_tensor_def map2_nth intro!: nth_equalityI)

lemma q_sample_total:
  assumes init: "Diffusion_init m a = Inr d"
    and t: "list_all (\<lambda>ti. 0 \<le> ti \<and> ti < num_timesteps d) t"
    and lt: "length t = length x_start"
    and sr: "map length x_res = map length x_start"
    and sn: "map length nz = map length x_start"
  shows "\<exists>xt. q_sample d g (fin_tensor x_start) (fin_tensor x_res) t (Some (fin_tensor nz))
                 = Inr (fin_tensor xt)"
proof -
  from init_schedule[OF init] obtain n where n: "0 < n" "num_timesteps d = int n"
    "length (alphas_cumsum d) = n" "length (betas_cumsum d) = n"
    by auto
  define A where "A = map (\<lambda>ti. alphas_cumsum d ! nat ti) t"
  define B where "B = map (\<lambda>ti. betas_cumsum d ! nat ti) t"
  have ea: "extract_t (map Fin (alphas_cumsum d)) t = Inr (map Fin A)"
    using t n by (auto simp: extract_t_def A_def list_all_iff nat_less_iff)
  have eb: "extract_t (map Fin (betas_cumsum d)) t = Inr (map Fin B)"
    using t n by (auto simp: extract_t_def B_def list_all_iff nat_less_iff)
  have lA: "length A = length x_res" "length B = length nz"
    using lt same_shape_nth(1)[OF sr] same_shape_nth(1)[OF sn] by (simp_all add: A_def B_def)
  define AR where "AR = map (\<lambda>i. map (\<lambda>v. A ! i * v) (x_res ! i)) [0..<length x_res]"
  define BN where "BN = map (\<lambda>i. map (\<lambda>v. B ! i * v) (nz ! i)) [0..<length nz]"
  have sAR: "map length AR = map length x_start"
    unfolding AR_def shape_rows by (rule sr)
  have sBN: "map length BN = map length x_start"
    unfolding BN_def shape_rows by (rule sn)
  define S1 where "S1 = map (\<lambda>i. map (\<lambda>j. x_start ! i ! j + AR ! i ! j) [0..<length (x_start ! i)])
                              [0..<length x_start]"
  have sS1: "map length S1 = map length x_start"
    unfolding S1_def shape_idx by (rule refl)
  define XT where "XT = map (\<lambda>i. map (\<lambda>j. S1 ! i ! j + BN ! i ! j) [0..<length (S1 ! i)])
                              [0..<length S1]"
  have "q_sample d g (fin_tensor x_start) (fin_tensor x_res) t (Some (fin_tensor nz))
             = Inr (fin_tensor XT)"
    unfolding q_sample_def
    by (simp add: ea eb and_then_def coef_op_fin[OF lA(1)] coef_op_fin[OF lA(2)]
        tensor_op_fin[where h="(+)"] sAR sBN sS1 flip: AR_def BN_def S1_def XT_def)
  then show ?thesis by blast
qed

section \<open>Rounding to single precision\<close>

lemma pow2_pos [simp]: "0 < pow2 e"
  by (simp add: pow2_def)

lemma pow2_neq0 [simp]: "pow2 e \<noteq> 0"
  by (simp add: pow2_def)

lemma abs_pow2 [simp]: "\<bar>pow2 e\<bar> = pow2 e"
  using pow2_pos[of e] by linarith

lemma pow2_powr: "pow2 e = 2 powr (real_of_int e)"
proof (cases "0 \<le> e")
  case True
  have "2 powr real_of_int e = 2 powr real (nat e)" using True by simp
  also have "\<dots> = 2 ^ nat e" by (simp add: powr_realpow)
  finally show ?thesis using True by (simp add: pow2_def)
next
  case False
  have "2 powr real_of_int e = 2 powr (- real (nat (- e)))" using False by simp
  also have "\<dots> = 1 / 2 ^ nat (- e)"
    by (simp add: powr_minus powr_realpow inverse_eq_divide)
  finally show ?thesis using False by (simp add: pow2_def)
qed

lemma pow2_add: "pow2 (a + b) = pow2 a * pow2 b"
  by (simp add: pow2_powr powr_add)

lemma pow2_nat: "0 \<le> e \<Longrightarrow> pow2 e = real_of_int (2 ^ nat e)"
  by (simp add: pow2_def)

lemma floor_log2:
  assumes "pow2 E \<le> x" "x < pow2 (E + 1)"
  shows "\<lfloor>log 2 x\<rfloor> = E"
proof -
  have x: "0 < x" using assms(1) pow2_pos[of E] by linarith
  have "real_of_int E \<le> log 2 x"
    using assms(1) x by (simp add: le_log_iff pow2_powr)
  moreover have "log 2 x < real_of_int E + 1"
    using assms(2) x by (simp add: log_less_iff pow2_powr)
  ultimately show ?thesis by (simp add: floor_eq_iff)
qed

lemma f32_eval:
  assumes "pow2 E \<le> \<bar>x\<bar>" "\<bar>x\<bar> < pow2 (E + 1)" "- 126 \<le> E"
  shows "f32 x = real_of_int (round_half_even (x / pow2 (E - 23))) * pow2 (E - 23)"
proof -
  have "0 < \<bar>x\<bar>" using assms(1) pow2_pos[of E] by linarith
  then have "x \<noteq> 0" by simp
  moreover have "f32_ulp x = pow2 (E - 23)"
    using floor_log2[OF assms(1,2)] assms(3) by (simp add: f32_ulp_def)
  ultimately show ?thesis by (simp add: f32_def)
qed

lemma round_half_even_of_int [simp]: "round_half_even (real_of_int z) = z"
  by (simp add: round_half_even_def)

lemma f32_exact:
  assumes m: "\<bar>m\<bar> < 2 ^ 24" and e: "- 149 \<le> e"
  shows "f32 (real_of_int m * pow2 e) = real_of_int m * pow2 e"
proof (cases "m = 0")
  case True
  then show ?thesis by (simp add: f32_def)
next
  case False
  let ?x = "real_of_int m * pow2 e"
  have x0: "?x \<noteq> 0" using False by simp
  have ax: "\<bar>?x\<bar> = real_of_int \<bar>m\<bar> * pow2 e" by (simp add: abs_mult)
  have "real_of_int \<bar>m\<bar> < 2 ^ 24" using m by (metis of_int_less_numeral_power_cancel_iff)
  then have "\<bar>?x\<bar> < 2 ^ 24 * pow2 e" unfolding ax by (simp)
  also have "\<dots> = pow2 (24 + e)" using pow2_add[of 24 e] by (simp add: pow2_def[of 24])
  finally have lt: "\<bar>?x\<bar> < pow2 (24 + e)" .
  have "0 < \<bar>?x\<bar>" using x0 by simp
  then have "log 2 \<bar>?x\<bar> < real_of_int (24 + e)"
    using lt by (simp add: log_less_iff pow2_powr)
  then have "\<lfloor>log 2 \<bar>?x\<bar>\<rfloor> < 24 + e" by (simp add: floor_less_iff)
  then have k: "max \<lfloor>log 2 \<bar>?x\<bar>\<rfloor> (- 126) - 23 \<le> e" using e by simp
  define k where "k = max \<lfloor>log 2 \<bar>?x\<bar>\<rfloor> (- 126) - 23"
  have ke: "k \<le> e" using k by (simp add: k_def)
  have "pow2 e = pow2 k * pow2 (e - k)" using pow2_add[of k "e - k"] by simp
  also have "pow2 (e - k) = real_of_int (2 ^ nat (e - k))" using ke by (simp add: pow2_nat)
  finally have pe: "pow2 e = pow2 k * real_of_int (2 ^ nat (e - k))" .
  have q: "?x / pow2 k = real_of_int (m * 2 ^ nat (e - k))"
    unfolding pe by simp
  have u: "f32_ulp ?x = pow2 k" by (simp add: f32_ulp_def k_def)
  have "f32 ?x = real_of_int (round_half_even (?x / pow2 k)) * pow2 k"
    using x0 by (simp only: f32_def u if_False)
  also have "\<dots> = real_of_int (m * 2 ^ nat (e - k)) * pow2 k"
    by (simp only: q round_half_even_of_int)
  also have "\<dots> = ?x" unfolding pe by simp
  finally show ?thesis .
qed

lemma f32_of_int: "\<bar>m\<bar> < 2 ^ 24 \<Longrightarrow> f32 (real_of_int m) = real_of_int m"
  using f32_exact[of m 0] by (simp add: pow2_def)

lemma f32_0 [simp]: "f32 0 = 0"
  by (simp add: f32_def)

lemma f32_minus_one [simp]: "f32 (- 1) = - 1"
  using f32_of_int[of "- 1"] by simp

section \<open>The time sequence of the reduced-step sampler\<close>

lemma trunc_int_of_int [simp]: "trunc_int (of_int k) = k"
  by (simp add: trunc_int_def)

lemma ceiling_minus_one: "\<lceil>- 1 :: real\<rceil> = - 1"
proof -
  have "\<lceil>of_int (- 1) :: real\<rceil> = - 1" by (rule ceiling_of_int)
  then show ?thesis by simp
qed

lemma length_time_pairs [simp]: "length (time_pairs ts) = length ts - 1"
  by (simp add: time_pairs_def)

lemma time_pairs_nth:
  "k < length ts - 1 \<Longrightarrow> time_pairs ts ! k = (ts ! k, ts ! Suc k)"
  by (simp add: time_pairs_def nth_butlast nth_tl)

lemma ddim_times_points:
  assumes "1 \<le> S"
  shows "ddim_times T S
           = Inr (rev (map (\<lambda>i. trunc_int (ddim_point T S i)) [0..<Suc (nat S)]))"
proof -
  have n: "nat (S + 1) = Suc (nat S)" using assms by linarith
  have s: "S + 1 - int i - 1 = S - int i" for i by simp
  have "linspace_f32 (- 1) (real_of_int (T - 1)) (S + 1)
          = Inr (map (ddim_point T S) [0..<Suc (nat S)])"
    using assms
    by (simp add: linspace_f32_def ddim_point_def[abs_def] Let_def n s del: upt_Suc)
  then show ?thesis by (simp add: ddim_times_def and_then_def comp_def del: upt_Suc)
qed

lemma ddim_point_0:
  assumes "1 \<le> S"
  shows "ddim_point T S 0 = - 1"
proof -
  have "0 < (S + 1) div 2" using assms by simp
  then show ?thesis by (simp add: ddim_point_def Let_def)
qed

lemma ddim_times_nth:
  assumes "1 \<le> S" "ddim_times T S = Inr ts"
  shows "length ts = Suc (nat S)"
    and "k \<le> nat S \<Longrightarrow> ts ! k = trunc_int (ddim_point T S (nat S - k))"
proof -
  have ts: "ts = rev (map (\<lambda>i. trunc_int (ddim_point T S i)) [0..<Suc (nat S)])"
    using assms(2) ddim_times_points[OF assms(1), of T] by simp
  show "length ts = Suc (nat S)" by (simp add: ts del: upt_Suc)
  show "ts ! k = trunc_int (ddim_point T S (nat S - k))" if "k \<le> nat S"
  proof -
    have "[0..<Suc (nat S)] ! (nat S - k) = nat S - k"
      using nth_upt[of 0 "nat S - k" "Suc (nat S)"] by simp
    then show ?thesis using that unfolding ts by (simp add: rev_nth del: upt_Suc)
  qed
qed

lemma ddim_pair_nth:
  assumes "1 \<le> S" "ddim_times T S = Inr ts" "k < nat S"
  shows "time_pairs ts ! k
           = (trunc_int (ddim_point T S (nat S - k)), trunc_int (ddim_point T S (nat S - Suc k)))"
  using ddim_times_nth[OF assms(1,2)] assms(3) by (simp add: time_pairs_nth)

lemma ddim_pairs_end:
  assumes "1 \<le> S" "ddim_times T S = Inr ts"
  shows "time_pairs ts \<noteq> []" and "snd (last (time_pairs ts)) = - 1"
proof -
  note l = ddim_times_nth(1)[OF assms]
  have n: "0 < nat S" using assms(1) by simp
  have len: "length (time_pairs ts) = nat S" by (simp add: l)
  then show ne: "time_pairs ts \<noteq> []" using n by (metis length_0_conv less_numeral_extra(3))
  have k: "nat S - 1 < nat S" using n by simp
  have "last (time_pairs ts) = time_pairs ts ! (nat S - 1)"
    using ne len by (simp add: last_conv_nth)
  also have "\<dots> = (trunc_int (ddim_point T S (nat S - (nat S - 1))),
                    trunc_int (ddim_point T S (nat S - Suc (nat S - 1))))"
    by (rule ddim_pair_nth[OF assms k])
  finally show "snd (last (time_pairs ts)) = - 1"
    using n ddim_point_0[OF assms(1), of T] trunc_int_of_int[of "- 1"] by simp
qed

lemma ddim_point_last:
  assumes "1 \<le> S" "\<bar>T - 1\<bar> < 2 ^ 24"
  shows "ddim_point T S (nat S) = real_of_int (T - 1)"
proof -
  have "\<not> int (nat S) < (S + 1) div 2" using assms(1) by simp
  moreover have "S - int (nat S) = 0" using assms(1) by simp
  ultimately show ?thesis
    using f32_of_int[OF assms(2)] by (simp add: ddim_point_def Let_def)
qed

lemma ddim_pairs_start:
  assumes "1 \<le> S" "\<bar>T - 1\<bar> < 2 ^ 24" "ddim_times T S = Inr ts"
  shows "fst (hd (time_pairs ts)) = T - 1"
proof -
  have n: "0 < nat S" using assms(1) by simp
  have "hd (time_pairs ts) = time_pairs ts ! 0"
    using ddim_pairs_end(1)[OF assms(1,3)] by (simp add: hd_conv_nth)
  also have "\<dots> = (trunc_int (ddim_point T S (nat S - 0)),
                    trunc_int (ddim_point T S (nat S - Suc 0)))"
    by (rule ddim_pair_nth[OF assms(1,3) n])
  finally show ?thesis
    using ddim_point_last[OF assms(1,2)] trunc_int_of_int[of "T - 1"] by simp
qed

text \<open>
  With 6456 timesteps and 6454 sampling steps the step of the spacing is rounded up to
  \<open>1048901 / 1048576\<close>. The point of index 3226, from the lower half, is rounded to 3226;
  the point of index 3227, from the upper half, stays below 3227.
\<close>

lemma f32_step_6456: "f32 (6456 / 6454) = 1048901 / 1048576"
  using f32_eval[of 0 "6456 / 6454"]
  by (simp add: pow2_def round_half_even_def Let_def)

lemma f32_point_3226: "f32 (1691353025 / 524288) = 3226"
  using f32_eval[of 11 "1691353025 / 524288"]
  by (simp add: pow2_def round_half_even_def Let_def)

lemma f32_point_3227: "f32 (3383754553 / 1048576) = 13217791 / 4096"
  using f32_eval[of 11 "3383754553 / 1048576"]
  by (simp add: pow2_def round_half_even_def Let_def)

lemma ddim_point_3226: "ddim_point 6456 6454 3226 = 3226"
proof -
  have i: "f32 6455 = 6455" "f32 6456 = 6456" "f32 6454 = 6454" "f32 3226 = 3226"
    using f32_of_int[of 6455] f32_of_int[of 6456] f32_of_int[of 6454] f32_of_int[of 3226]
    by simp_all
  have s: "f32 (3228 / 3227) = 1048901 / 1048576" using f32_step_6456 by simp
  have "ddim_point 6456 6454 3226 = f32 (f32 (3228 / 3227) * 3226 - 1)"
    by (simp add: ddim_point_def Let_def i)
  also have "\<dots> = f32 (1691353025 / 524288)" by (simp add: s)
  also have "\<dots> = 3226" by (rule f32_point_3226)
  finally show ?thesis .
qed

lemma ddim_point_3227: "ddim_point 6456 6454 3227 = 13217791 / 4096"
proof -
  have i: "f32 6455 = 6455" "f32 6456 = 6456" "f32 6454 = 6454" "f32 3227 = 3227"
    using f32_of_int[of 6455] f32_of_int[of 6456] f32_of_int[of 6454] f32_of_int[of 3227]
    by simp_all
  have s: "f32 (3228 / 3227) = 1048901 / 1048576" using f32_step_6456 by simp
  have "ddim_point 6456 6454 3227 = f32 (6455 - f32 (3228 / 3227) * 3227)"
    by (simp add: ddim_point_def Let_def i)
  also have "\<dots> = f32 (3383754553 / 1048576)" by (simp add: s)
  also have "\<dots> = 13217791 / 4096" by (rule f32_point_3227)
  finally show ?thesis .
qed

text \<open>
  A second instance: with 16 timesteps and 14 sampling steps the exact point of index 7 is
  \<open>7 * 16 / 14 - 1 = 7\<close>, the point computed in single precision lies just below it, and
  the sequence holds 6 there.
\<close>

lemma f32_step_16: "f32 (16 / 14) = 9586981 / 8388608"
  using f32_eval[of 0 "16 / 14"]
  by (simp add: pow2_def round_half_even_def Let_def)

lemma f32_point_7: "f32 (58720253 / 8388608) = 14680063 / 2097152"
  using f32_eval[of 2 "58720253 / 8388608"]
  by (simp add: pow2_def round_half_even_def Let_def)

lemma ddim_point_7: "ddim_point 16 14 7 = 14680063 / 2097152"
proof -
  have i: "f32 15 = 15" "f32 16 = 16" "f32 14 = 14" "f32 7 = 7"
    using f32_of_int[of 15] f32_of_int[of 16] f32_of_int[of 14] f32_of_int[of 7]
    by simp_all
  have s: "f32 (8 / 7) = 9586981 / 8388608" using f32_step_16 by simp
  have "ddim_point 16 14 7 = f32 (15 - f32 (8 / 7) * 7)"
    by (simp add: ddim_point_def Let_def i)
  also have "\<dots> = f32 (58720253 / 8388608)" by (simp add: s)
  also have "\<dots> = 14680063 / 2097152" by (rule f32_point_7)
  finally show ?thesis .
qed

lemma ddim_times_16_14:
  assumes "ddim_times 16 14 = Inr ts"
  shows "ts ! 7 = 6" and "trunc_int (7 * 16 / 14 - 1) = 7"
proof -
  have S: "(1::int) \<le> 14" by simp
  have k: "(7::nat) \<le> nat 14" by simp
  have n: "nat 14 - 7 = (7::nat)" by simp
  have t: "trunc_int (14680063 / 2097152) = 6" by (simp add: trunc_int_def)
  show "ts ! 7 = 6"
    using ddim_times_nth(2)[OF S assms k] unfolding n ddim_point_7 t .
  show "trunc_int (7 * 16 / 14 - 1) = 7" by (simp add: trunc_int_def)
qed

section \<open>The reduced-step sampler at eta = 0\<close>

lemma ddim_step_eta0:
  "ddim_sampling_eta d = 0 \<Longrightarrow>
   ddim_step d r x_input x_input_condition batch only_last p st
     = ddim_step d r' x_input x_input_condition batch only_last p st"
  by (simp add: ddim_step_def Let_def split: prod.splits)

lemma ddim_loop_eta0:
  "ddim_sampling_eta d = 0 \<Longrightarrow>
   ddim_loop d r x_input x_input_condition batch only_last ps st
     = ddim_loop d r' x_input x_input_condition batch only_last ps st"
proof (induction ps arbitrary: st)
  case Nil
  then show ?case by simp
next
  case (Cons p ps)
  have "ddim_loop d r x_input x_input_condition batch only_last ps
          = ddim_loop d r' x_input x_input_condition batch only_last ps"
    using Cons by blast
  then show ?case
    using ddim_step_eta0[OF Cons.prems, of r x_input x_input_condition batch only_last p st r']
    by simp
qed

lemma ddim_sample_eta0:
  assumes "ddim_sampling_eta d = 0" "r 0 = r' 0"
  shows "ddim_sample d r x_input shape only_last = ddim_sample d r' x_input shape only_last"
proof -
  have l: "ddim_loop d r xi xc b l ps st = ddim_loop d r' xi xc b l ps st" for xi xc b l ps st
    by (rule ddim_loop_eta0[OF assms(1)])
  show ?thesis unfolding ddim_sample_def by (cases x_input) (simp_all add: l assms(2))
qed

section \<open>Finite tensors through the sampler\<close>

lemma is_fin_iff: "is_fin v \<longleftrightarrow> (\<exists>a. v = Fin a)"
  by (cases v) (simp_all add: is_fin_def)

lemma is_fin_Fin [simp]: "is_fin (Fin a)"
  by (simp add: is_fin_def)

lemma in_range_is_fin: "in_range lo hi v \<Longrightarrow> is_fin v"
  by (cases v) (simp_all add: in_range_def)

lemma finite_tensor_iff: "finite_tensor x \<longleftrightarrow> (\<forall>row\<in>set x. \<forall>v\<in>set row. is_fin v)"
  by (simp add: finite_tensor_def list_all_iff)

lemma finite_scalar_op:
  assumes "finite_tensor x" "\<And>a. is_fin (f (Fin a))"
  shows "finite_tensor (scalar_op f x)"
  unfolding finite_tensor_iff scalar_op_def
proof (intro ballI)
  fix row v assume "row \<in> set (map (map f) x)" "v \<in> set row"
  then obtain rx u where "rx \<in> set x" "u \<in> set rx" "v = f u" by auto
  moreover from this assms(1) obtain a where "u = Fin a"
    by (auto simp: finite_tensor_iff is_fin_iff)
  ultimately show "is_fin v" using assms(2) by simp
qed

lemma finite_tensor_op:
  assumes "tensor_op f x y = Inr z" "finite_tensor x" "finite_tensor y"
    "\<And>a b. is_fin (f (Fin a) (Fin b))"
  shows "finite_tensor z"
proof -
  from assms(1) have z: "z = map2 (map2 f) x y"
    by (auto simp: tensor_op_def split: if_splits)
  show ?thesis
    unfolding finite_tensor_iff z
  proof (intro ballI)
    fix row v assume "row \<in> set (map2 (map2 f) x y)" "v \<in> set row"
    then obtain rx ry where r: "(rx, ry) \<in> set (zip x y)" "row = map2 f rx ry" by auto
    with \<open>v \<in> set row\<close> obtain a b where ab: "(a, b) \<in> set (zip rx ry)" "v = f a b" by auto
    from r(1) have "rx \<in> set x" "ry \<in> set y" by (auto dest: set_zip_leftD set_zip_rightD)
    with ab(1) assms(2,3) have "is_fin a" "is_fin b"
      by (auto simp: finite_tensor_iff dest: set_zip_leftD set_zip_rightD)
    then show "is_fin v" using ab(2) assms(4) by (auto simp: is_fin_iff)
  qed
qed

lemma finite_coef_op:
  assumes "coef_op f c x = Inr z" "list_all is_fin c" "finite_tensor x"
    "\<And>a b. is_fin (f (Fin a) (Fin b))"
  shows "finite_tensor z"
proof -
  from assms(1) have z: "z = map2 (\<lambda>ci row. map (f ci) row) c x"
    by (auto simp: coef_op_def split: if_splits)
  show ?thesis
    unfolding finite_tensor_iff z
  proof (intro ballI)
    fix row v assume "row \<in> set (map2 (\<lambda>ci row. map (f ci) row) c x)" "v \<in> set row"
    then obtain ci rx where r: "(ci, rx) \<in> set (zip c x)" "row = map (f ci) rx" by auto
    with \<open>v \<in> set row\<close> obtain b where b: "b \<in> set rx" "v = f ci b" by auto
    from r(1) have "ci \<in> set c" "rx \<in> set x" by (auto dest: set_zip_leftD set_zip_rightD)
    with b(1) assms(2,3) have "is_fin ci" "is_fin b"
      by (auto simp: finite_tensor_iff list_all_iff)
    then show "is_fin v" using b(2) assms(4) by (auto simp: is_fin_iff)
  qed
qed

lemma extract_t_fin:
  "extract_t (map Fin a) t = Inr c \<Longrightarrow> list_all is_fin c"
  by (auto simp: extract_t_def list_all_iff nat_less_iff split: if_splits)

lemma finite_randn [simp]: "finite_tensor (randn g b n)"
  by (auto simp: finite_tensor_iff randn_def)

lemma finite_predict_start:
  assumes "predict_start_from_res_noise d x t pr pn = Inr y"
    "finite_tensor x" "finite_tensor pr" "finite_tensor pn"
  shows "finite_tensor y"
proof -
  from assms(1) obtain a ar s b bn where
    a: "extract_t (map Fin (alphas_cumsum d)) t = Inr a" and
    ar: "coef_op tmul a pr = Inr ar" and
    s: "tensor_op tsub x ar = Inr s" and
    b: "extract_t (map Fin (betas_cumsum d)) t = Inr b" and
    bn: "coef_op tmul b pn = Inr bn" and
    y: "tensor_op tsub s bn = Inr y"
    by (auto simp: predict_start_from_res_noise_def and_then_def split: sum.splits)
  have far: "finite_tensor ar"
    by (rule finite_coef_op[OF ar extract_t_fin[OF a] assms(3)]) simp
  have fs: "finite_tensor s"
    by (rule finite_tensor_op[OF s assms(2) far]) (simp add: tsub_def)
  have fbn: "finite_tensor bn"
    by (rule finite_coef_op[OF bn extract_t_fin[OF b] assms(4)]) simp
  show ?thesis
    by (rule finite_tensor_op[OF y fs fbn]) (simp add: tsub_def)
qed

lemma clamp_in_range:
  assumes "finite_tensor y" "lo \<le> hi"
  shows "list_all (list_all (in_range lo hi)) (scalar_op (tclamp lo hi) y)"
  unfolding list_all_iff scalar_op_def
proof (intro ballI)
  fix row v assume "row \<in> set (map (map (tclamp lo hi)) y)" "v \<in> set row"
  then obtain ry u where "ry \<in> set y" "u \<in> set ry" "v = tclamp lo hi u" by auto
  moreover from this assms(1) obtain a where "u = Fin a"
    by (auto simp: finite_tensor_iff is_fin_iff)
  ultimately show "in_range lo hi v" using assms(2) by (simp add: in_range_def)
qed

lemma in_range_finite:
  "list_all (list_all (in_range lo hi)) y \<Longrightarrow> finite_tensor y"
  by (auto simp: finite_tensor_iff list_all_iff intro: in_range_is_fin)

lemma model_predictions_clipped:
  assumes "model_predictions d xi x t xc sc True = Inr (pr, pn, xs)"
    "finite_tensor x" "finite_denoiser (forward (model d))"
  shows "finite_tensor pr" "finite_tensor pn" "list_all (list_all (in_range (- 1) 1)) xs"
proof -
  from assms(1) obtain x_in y where
    pr: "pr = scalar_op (tclamp (- 1) 1) (fst (forward (model d) x_in t sc))" and
    pn: "pn = snd (forward (model d) x_in t sc)" and
    y: "predict_start_from_res_noise d x t pr pn = Inr y" and
    xs: "xs = scalar_op (tclamp (- 1) 1) y"
    by (auto simp: model_predictions_def and_then_def Let_def split: sum.splits)
  from assms(3) have f: "finite_tensor (fst (forward (model d) x_in t sc))"
    "finite_tensor (snd (forward (model d) x_in t sc))"
    by (simp_all add: finite_denoiser_def)
  show fpr: "finite_tensor pr"
    unfolding pr by (rule in_range_finite[OF clamp_in_range[OF f(1)]]) simp
  show fpn: "finite_tensor pn" unfolding pn by (rule f(2))
  have "finite_tensor y" by (rule finite_predict_start[OF y assms(2) fpr fpn])
  then show "list_all (list_all (in_range (- 1) 1)) xs"
    unfolding xs by (rule clamp_in_range) simp
qed

lemma py_index_in_set: "py_index a i = Inr v \<Longrightarrow> v \<in> set a"
  by (auto simp: py_index_def Let_def split: if_splits)

lemma ddim_step_finite:
  assumes step: "ddim_step d r xi xc batch only_last p (img, xs, il, k) = Inr (img', xs', il', k')"
    and fin: "finite_tensor img"
    and den: "finite_denoiser (forward (model d))"
    and eta: "ddim_sampling_eta d = 0"
    and pos: "\<forall>v\<in>set (betas2_cumsum d). 0 < v"
  shows "finite_tensor img'"
    and "snd p < 0 \<Longrightarrow> list_all (list_all (in_range (- 1) 1)) img'"
proof -
  obtain time time_next where p: "p = (time, time_next)" by (cases p)
  from step obtain pr pn x0 where
    mp: "model_predictions d xi img (replicate batch time) xc
           (if self_condition d then xs else None) True = Inr (pr, pn, x0)"
    by (auto simp: ddim_step_def p and_then_def Let_def split: sum.splits)
  note m = model_predictions_clipped[OF mp fin den]
  have neg: "img' = x0" if "time_next < 0"
    using step that by (simp add: ddim_step_def p mp and_then_def Let_def)
  show "list_all (list_all (in_range (- 1) 1)) img'" if "snd p < 0"
    using that neg m(3) by (simp add: p)
  show "finite_tensor img'"
  proof (cases "time_next < 0")
    case True
    then show ?thesis using neg in_range_finite[OF m(3)] by simp
  next
    case False
    with step obtain ac acn b2c b2cn bc s1 s2 where
      i: "py_index (betas2_cumsum d) time = Inr b2c"
         "py_index (betas2_cumsum d) time_next = Inr b2cn" and
      s1: "tensor_op tsub img (scalar_op (tmul (Fin (ac - acn))) pr) = Inr s1" and
      s2: "tensor_op tsub s1
             (scalar_op (tmul (tsub (Fin bc)
                (tsqrt (tsub (Fin b2cn)
                   (tmul (Fin 0) (tdiv (Fin ((b2c - b2cn) * b2cn)) (Fin b2c)))))))
              pn) = Inr s2" and
      img': "img' = scalar_op (\<lambda>v. tadd v (tmul (tsqrt
                (tmul (Fin 0) (tdiv (Fin ((b2c - b2cn) * b2cn)) (Fin b2c)))) (Fin 0))) s2"
      by (auto simp: ddim_step_def p mp and_then_def Let_def eta split: sum.splits
          simp del: tdiv.simps tmul.simps tsqrt.simps)
    from i pos have b: "0 < b2c" "0 < b2cn" by (auto dest: py_index_in_set)
    then have sig: "tmul (Fin 0) (tdiv (Fin ((b2c - b2cn) * b2cn)) (Fin b2c)) = Fin 0"
      by simp
    have f1: "finite_tensor s1"
      by (rule finite_tensor_op[OF s1 fin finite_scalar_op[OF m(1)]]) (simp_all add: tsub_def)
    have f2: "finite_tensor s2"
      using b by (intro finite_tensor_op[OF s2 f1 finite_scalar_op[OF m(2)]])
        (simp_all add: tsub_def sig)
    show ?thesis
      unfolding img' sig by (rule finite_scalar_op[OF f2]) simp
  qed
qed

lemma ddim_loop_finite:
  assumes loop: "ddim_loop d r xi xc batch only_last ps st = Inr st'"
    and fin: "finite_tensor (fst st)"
    and den: "finite_denoiser (forward (model d))"
    and eta: "ddim_sampling_eta d = 0"
    and pos: "\<forall>v\<in>set (betas2_cumsum d). 0 < v"
  shows "finite_tensor (fst st')"
    and "ps \<noteq> [] \<Longrightarrow> snd (last ps) < 0 \<Longrightarrow> list_all (list_all (in_range (- 1) 1)) (fst st')"
  using loop fin
proof (induction ps arbitrary: st)
  case Nil
  { case 1 then show ?case by simp }
  { case 2 then show ?case by simp }
next
  case (Cons p ps)
  { case 1
    from "1.prems"(1) obtain st1 where
      s: "ddim_step d r xi xc batch only_last p st = Inr st1" and
      l: "ddim_loop d r xi xc batch only_last ps st1 = Inr st'"
      by (auto simp: and_then_def split: sum.splits)
    obtain img xs il k where st: "st = (img, xs, il, k)" by (cases st) auto
    obtain img1 xs1 il1 k1 where st1: "st1 = (img1, xs1, il1, k1)" by (cases st1) auto
    have "finite_tensor (fst st1)"
      using ddim_step_finite(1)[OF s[unfolded st st1] _ den eta pos] "1.prems"(2)
      by (simp add: st st1)
    from Cons.IH(1)[OF l this] show ?case . }
  { case 2
    from "2.prems"(3) obtain st1 where
      s: "ddim_step d r xi xc batch only_last p st = Inr st1" and
      l: "ddim_loop d r xi xc batch only_last ps st1 = Inr st'"
      by (auto simp: and_then_def split: sum.splits)
    obtain img xs il k where st: "st = (img, xs, il, k)" by (cases st) auto
    obtain img1 xs1 il1 k1 where st1: "st1 = (img1, xs1, il1, k1)" by (cases st1) auto
    have f1: "finite_tensor (fst st1)"
      using ddim_step_finite(1)[OF s[unfolded st st1] _ den eta pos] "2.prems"(4)
      by (simp add: st st1)
    show ?case
    proof (cases "ps = []")
      case True
      then have "st' = st1" "snd p < 0" using l "2.prems"(2) by simp_all
      then show ?thesis
        using ddim_step_finite(2)[OF s[unfolded st st1] _ den eta pos] "2.prems"(4)
        by (simp add: st st1)
    next
      case False
      then have "snd (last ps) < 0" using "2.prems"(2) by simp
      from Cons.IH(2)[OF False this l f1] show ?thesis .
    qed }
qed

lemma finite_normalize:
  "finite_tensor x \<Longrightarrow> finite_tensor (normalize_to_neg_one_to_one x)"
  unfolding normalize_to_neg_one_to_one_def
  by (rule finite_scalar_op) (simp_all add: tsub_def)

lemma unnormalize_range:
  assumes "list_all (list_all (in_range (- 1) 1)) x"
  shows "list_all (list_all (in_range 0 1)) (scalar_op (\<lambda>v. tmul (tadd v (Fin 1)) (Fin 0.5)) x)"
  unfolding list_all_iff scalar_op_def
proof (intro ballI)
  fix row v
  assume "row \<in> set (map (map (\<lambda>v. tmul (tadd v (Fin 1)) (Fin 0.5))) x)" "v \<in> set row"
  then obtain rx u where u: "rx \<in> set x" "u \<in> set rx" "v = tmul (tadd u (Fin 1)) (Fin 0.5)"
    by auto
  with assms have "in_range (- 1) 1 u" by (auto simp: list_all_iff)
  then obtain a where "u = Fin a" "- 1 \<le> a" "a \<le> 1"
    by (cases u) (simp_all add: in_range_def)
  then show "in_range 0 1 v" using u(3) by (simp add: in_range_def)
qed

lemma ddim_sample_final_range:
  assumes init: "Diffusion_init m a = Inr d"
    and cond: "condition d"
    and S: "1 \<le> sampling_timesteps d"
    and den: "finite_denoiser (forward m)"
    and xin: "list_all finite_tensor xs"
    and run: "ddim_sample d r (XList xs) shape True = Inr out"
  shows "\<exists>noisy final. out = [noisy, final] \<and> list_all (list_all (in_range 0 1)) final"
proof -
  note fl = init_flags[OF init]
  have eta: "ddim_sampling_eta d = 0" using fl cond by simp
  have den': "finite_denoiser (forward (model d))" using den fl by simp
  from run obtain xc x0 ts img0 img' x_start il k where
    x0: "py_index xs 0 = Inr x0" and
    ts: "ddim_times (num_timesteps d) (sampling_timesteps d) = Inr ts" and
    i0: "initial_img d (r 0) x0 shape = Inr img0" and
    loop: "ddim_loop d r (Some x0) xc (fst shape) True (time_pairs ts) (img0, None, [], 1)
             = Inr (img', x_start, il, k)" and
    out: "out = unnormalize_to_zero_to_one (returned_list d True img0 img' il)"
    by (auto simp: ddim_sample_def and_then_def split: sum.splits if_splits)
  have fx0: "finite_tensor x0"
    using py_index_in_set[OF x0] xin by (simp add: list_all_iff)
  from i0 cond have nonneg: "\<not> sum_scale d < 0" and
    add: "tensor_op tadd x0 (scalar_op (tmul (Fin (sqrt (sum_scale d))))
            (randn (r 0) (fst shape) (snd shape))) = Inr img0"
    by (auto simp: initial_img_def split: if_splits)
  have f0: "finite_tensor img0"
    by (rule finite_tensor_op[OF add fx0 finite_scalar_op[OF finite_randn]]) simp_all
  have "0 < sum_scale d" using nonneg init_sum_scale_nonzero[OF init] by simp
  then have pos: "\<forall>v\<in>set (betas2_cumsum d). 0 < v" by (rule betas2_cumsum_all_pos[OF init])
  have "list_all (list_all (in_range (- 1) 1)) (fst (img', x_start, il, k))"
    using ddim_loop_finite(2)[OF loop _ den' eta pos] f0 ddim_pairs_end[OF S ts]
    by simp
  then have "list_all (list_all (in_range 0 1))
               (scalar_op (\<lambda>v. tmul (tadd v (Fin 1)) (Fin 0.5)) img')"
    using unnormalize_range by simp
  then show ?thesis
    using cond by (simp add: out returned_list_def unnormalize_to_zero_to_one_def)
qed

section \<open>The training loss in generation mode\<close>

lemma residual_generation:
  "residual None (fin_tensor x) = Inr (fin_tensor (map (map uminus) x))"
  by (simp add: residual_def scalar_op_def fin_tensor_def tsub_def)

lemma p_losses_generation_formula:
  assumes init: "Diffusion_init m a = Inr d"
    and gen: "\<not> arg_condition a"
    and nsc: "\<not> (m_self_condition m \<and> coin < 1 / 2)"
    and lf: "loss_fn d = Inr l"
    and t: "list_all (\<lambda>ti. 0 \<le> ti \<and> ti < num_timesteps d) t"
    and lt: "length t = length x_start"
    and sn: "map length nz = map length x_start"
  shows "\<exists>x_t. q_sample d g (fin_tensor x_start) (fin_tensor (map (map uminus) x_start)) t
                  (Some (fin_tensor nz)) = Inr x_t
     \<and> p_losses d g coin (ImgTensor (fin_tensor x_start)) t (Some (fin_tensor nz))
         = and_then (tensor_op l (fst (forward m x_t t None))
                       (fin_tensor (map (map uminus) x_start))) (\<lambda>loss0.
           and_then (tensor_op l (snd (forward m x_t t None)) (fin_tensor nz)) (\<lambda>loss1.
           and_then (tensor_op tadd (scalar_op (tadd (Fin 0)) loss0) loss1) (\<lambda>loss.
           Inr (tmean (map tmean loss)))))"
proof -
  note fl = init_flags[OF init]
  have sr: "map length (map (map uminus) x_start) = map length x_start"
    by (simp add: comp_def)
  from q_sample_total[OF init t lt sr sn, of g] obtain xt where
    q: "q_sample d g (fin_tensor x_start) (fin_tensor (map (map uminus) x_start)) t
          (Some (fin_tensor nz)) = Inr (fin_tensor xt)" by blast
  have c: "\<not> condition d" "\<not> (self_condition d \<and> coin < 1 / 2)" "model d = m"
    using fl gen nsc by simp_all
  have "p_losses d g coin (ImgTensor (fin_tensor x_start)) t (Some (fin_tensor nz))
         = and_then (tensor_op l (fst (forward m (fin_tensor xt) t None))
                       (fin_tensor (map (map uminus) x_start))) (\<lambda>loss0.
           and_then (tensor_op l (snd (forward m (fin_tensor xt) t None)) (fin_tensor nz)) (\<lambda>loss1.
           and_then (tensor_op tadd (scalar_op (tadd (Fin 0)) loss0) loss1) (\<lambda>loss.
           Inr (tmean (map tmean loss)))))"
    using c
    by (auto simp: p_losses_def p_losses_inputs_def residual_generation q lf and_then_def Let_def)
  with q show ?thesis by blast
qed

lemma tmean_single: "tmean [Fin v] = Fin v"
  by (simp add: tmean_def)

section \<open>The example instances\<close>

lemma example_init: "\<exists>d. Diffusion_init example_unet example_args = Inr d"
  by (rule init_succeeds) (simp_all add: example_unet_def example_args_def)

lemma example_timesteps:
  "Diffusion_init example_unet example_args = Inr d \<Longrightarrow> num_timesteps d = 3"
  using init_schedule[of example_unet example_args d] by (auto simp: example_args_def)

lemma ramp_2: "ramp 2 = [1 / 3, 2 / 3]"
  by (simp add: ramp_def numeral_2_eq_2)

lemma ramp_3: "ramp 3 = [1 / 6, 1 / 3, 1 / 2]"
  by (simp add: ramp_def numeral_3_eq_3)

lemma sqrt_hundredth: "sqrt (1 / 100) = 1 / 10"
proof -
  have "sqrt (1 / 100) = sqrt ((1 / 10)\<^sup>2)" by (simp add: power2_eq_square)
  also have "\<dots> = 1 / 10" by simp
  finally show ?thesis .
qed

lemma example_schedule:
  assumes "Diffusion_init example_unet example_args = Inr d"
  shows "alphas_cumsum d = [1 / 2, 5 / 6, 1]"
    and "betas2_cumsum d = [1 / 600, 1 / 200, 1 / 100]"
    and "betas_cumsum d = [sqrt (1 / 600), sqrt (1 / 200), 1 / 10]"
    and "sum_scale d = 1 / 100"
    and "sampling_timesteps d = 2" and "is_ddim_sampling d" and "condition d"
    and "\<not> input_condition d" and "\<not> self_condition d" and "ddim_sampling_eta d = 0"
    and "model d = example_unet"
proof -
  from init_flags[OF assms] example_timesteps[OF assms]
  show s: "sum_scale d = 1 / 100" and "sampling_timesteps d = 2" and "is_ddim_sampling d"
    and "condition d" and "\<not> input_condition d" and "\<not> self_condition d"
    and "ddim_sampling_eta d = 0" and "model d = example_unet"
    by (simp_all add: example_args_def example_unet_def truthy_or_def)
  from init_schedule[OF assms] have al: "alphas d = rev (ramp 3)"
    and b2: "betas2 d = map (\<lambda>x. x * sum_scale d) (ramp 3)"
    and ac: "alphas_cumsum d = map clip01 (cumsum (alphas d))"
    and bc: "betas2_cumsum d = map clip01 (cumsum (betas2 d))"
    and b: "betas_cumsum d = map sqrt (betas2_cumsum d)"
    by (auto simp: example_args_def)
  show "alphas_cumsum d = [1 / 2, 5 / 6, 1]"
    by (simp add: ac al ramp_3 cumsum_def clip01_def)
  show c: "betas2_cumsum d = [1 / 600, 1 / 200, 1 / 100]"
    by (simp add: bc b2 s ramp_3 cumsum_def clip01_def)
  show "betas_cumsum d = [sqrt (1 / 600), sqrt (1 / 200), 1 / 10]"
    by (simp add: b c sqrt_hundredth del: real_sqrt_divide)
qed

lemma f32_small_values:
  "f32 1 = 1" "f32 2 = 2" "f32 3 = 3" "f32 (3 / 2) = 3 / 2" "f32 (1 / 2) = 1 / 2"
  using f32_of_int[of 1] f32_of_int[of 2] f32_of_int[of 3] f32_exact[of 3 "- 1"]
    f32_exact[of 1 "- 1"]
  by (simp_all add: pow2_def)

lemma example_times: "ddim_times 3 2 = Inr [2, 0, - 1]"
proof -
  have p: "ddim_point 3 2 0 = - 1" "ddim_point 3 2 (Suc 0) = 1 / 2"
    "ddim_point 3 2 (Suc (Suc 0)) = 2"
    by (simp_all add: ddim_point_def Let_def f32_small_values)
  have t: "trunc_int (ddim_point 3 2 0) = - 1" "trunc_int (ddim_point 3 2 (Suc 0)) = 0"
    "trunc_int (ddim_point 3 2 (Suc (Suc 0))) = 2"
    unfolding p by (simp_all add: trunc_int_def ceiling_minus_one)
  show ?thesis
    using ddim_times_points[of 2 3]
    by (simp add: upt_rec[of 0] upt_rec[of 1] upt_rec[of 2] upt_rec[of 3] numeral_eq_Suc t)
qed

lemma example_sample:
  assumes d: "Diffusion_init example_unet example_args = Inr d"
    and r: "r 0 = (\<lambda>i j. 1)"
  shows "sample d r (XList [[[Fin 1]]]) 16 True = Inr [[[Fin (21 / 20)]], [[Fin (11 / 20)]]]"
proof -
  note e = example_schedule[OF d]
  have norm: "normalize_to_neg_one_to_one [[Fin 1]] = [[Fin 1]]"
    by (simp add: normalize_to_neg_one_to_one_def scalar_op_def)
  have img0: "initial_img d (r 0) [[Fin 1]] (Suc 0, Suc 0) = Inr [[Fin (11 / 10)]]"
    by (simp add: initial_img_def e r randn_def scalar_op_def tensor_op_def sqrt_hundredth)
  have mp2: "model_predictions d (Some [[Fin 1]]) [[Fin (11 / 10)]] [2] None None True
      = Inr ([[Fin 1]], [[Fin 0]], [[Fin (1 / 10)]])"
    by (simp add: model_predictions_def e example_unet_def cat_channels_def and_then_def
        predict_start_from_res_noise_def extract_t_def coef_op_def tensor_op_def scalar_op_def)
  have step1: "ddim_step d r (Some [[Fin 1]]) None (Suc 0) True (2, 0) ([[Fin (11 / 10)]], None, [], Suc 0)
      = Inr ([[Fin (3 / 5)]], Some [[Fin (1 / 10)]], [], Suc 0)"
    by (simp add: ddim_step_def e mp2 and_then_def py_index_def tensor_op_def scalar_op_def
        Let_def)
  have mp0: "model_predictions d (Some [[Fin 1]]) [[Fin (3 / 5)]] [0] None None True
      = Inr ([[Fin 1]], [[Fin 0]], [[Fin (1 / 10)]])"
    by (simp add: model_predictions_def e example_unet_def cat_channels_def and_then_def
        predict_start_from_res_noise_def extract_t_def coef_op_def tensor_op_def scalar_op_def)
  have step2: "ddim_step d r (Some [[Fin 1]]) None (Suc 0) True (0, - 1)
        ([[Fin (3 / 5)]], Some [[Fin (1 / 10)]], [], Suc 0)
      = Inr ([[Fin (1 / 10)]], Some [[Fin (1 / 10)]], [], Suc 0)"
    by (simp add: ddim_step_def e mp0 and_then_def)
  have loop: "ddim_loop d r (Some [[Fin 1]]) None (Suc 0) True [(2, 0), (0, - 1)]
        ([[Fin (11 / 10)]], None, [], Suc 0)
      = Inr ([[Fin (1 / 10)]], Some [[Fin (1 / 10)]], [], Suc 0)"
    by (simp add: step1 step2 and_then_def)
  have ddim: "ddim_sample d r (XList [[[Fin 1]]]) (Suc 0, Suc 0) True
      = Inr [[[Fin (21 / 20)]], [[Fin (11 / 20)]]]"
    by (simp add: ddim_sample_def e py_index_def and_then_def example_timesteps[OF d]
        example_times time_pairs_def img0 step1 step2 returned_list_def unnormalize_to_zero_to_one_def
        scalar_op_def)
  show ?thesis
    by (simp add: sample_def e norm py_index_def and_then_def tensor_shape_def ddim)
qed

lemma generation_init: "\<exists>d. Diffusion_init zero_unet generation_args = Inr d"
  by (rule init_succeeds) (simp_all add: zero_unet_def generation_args_def)

lemma generation_facts:
  assumes "Diffusion_init zero_unet generation_args = Inr d"
  shows "num_timesteps d = 3" and "loss_fn d = Inr (\<lambda>u v. tabs (tsub u v))"
    and "\<not> condition d"
  using init_schedule[OF assms] init_flags[OF assms]
  by (auto simp: generation_args_def loss_fn_def)

lemma generation_loss_value:
  assumes x: "q_sample d g (fin_tensor [[1]]) (fin_tensor (map (map uminus) [[1]])) [0]
                (Some (fin_tensor [[0]])) = Inr x_t"
    and p: "p_losses d g coin (ImgTensor (fin_tensor [[1]])) [0] (Some (fin_tensor [[0]]))
         = and_then (tensor_op (\<lambda>u v. tabs (tsub u v)) (fst (forward zero_unet x_t [0] None))
                       (fin_tensor (map (map uminus) [[1]]))) (\<lambda>loss0.
           and_then (tensor_op (\<lambda>u v. tabs (tsub u v)) (snd (forward zero_unet x_t [0] None))
                       (fin_tensor [[0]])) (\<lambda>loss1.
           and_then (tensor_op tadd (scalar_op (tadd (Fin 0)) loss0) loss1) (\<lambda>loss.
           Inr (tmean (map tmean loss)))))"
  shows "p_losses d g coin (ImgTensor [[Fin 1]]) [0] (Some [[Fin 0]]) = Inr (Fin 1)"
  using p
  by (simp add: fin_tensor_def zero_unet_def tensor_op_def scalar_op_def and_then_def
      tmean_single)

lemma generation_example_loss:
  assumes d: "Diffusion_init zero_unet generation_args = Inr d"
  shows "p_losses d g coin (ImgTensor [[Fin 1]]) [0] (Some [[Fin 0]]) = Inr (Fin 1)"
proof -
  note f = generation_facts[OF d]
  have "\<exists>x_t. q_sample d g (fin_tensor [[1]]) (fin_tensor (map (map uminus) [[1]])) [0]
                  (Some (fin_tensor [[0]])) = Inr x_t
     \<and> p_losses d g coin (ImgTensor (fin_tensor [[1]])) [0] (Some (fin_tensor [[0]]))
         = and_then (tensor_op (\<lambda>u v. tabs (tsub u v)) (fst (forward zero_unet x_t [0] None))
                       (fin_tensor (map (map uminus) [[1]]))) (\<lambda>loss0.
           and_then (tensor_op (\<lambda>u v. tabs (tsub u v)) (snd (forward zero_unet x_t [0] None))
                       (fin_tensor [[0]])) (\<lambda>loss1.
           and_then (tensor_op tadd (scalar_op (tadd (Fin 0)) loss0) loss1) (\<lambda>loss.
           Inr (tmean (map tmean loss)))))"
    by (rule p_losses_generation_formula[OF d _ _ f(2)])
      (simp_all add: generation_args_def zero_unet_def f(1))
  then show ?thesis using generation_loss_value by blast
qed
section \<open>Claims\<close>

text \<open>
  C1: after construction, for finite tensors \<open>x_start\<close>, \<open>x_res\<close> and \<open>noise\<close> of one
  shape and timesteps in \<open>[0, num_timesteps)\<close>, one per sample, \<^verbatim>\<open>q_sample\<close> returns a
  tensor \<open>x_t\<close> and \<^verbatim>\<open>predict_start_from_res_noise\<close> applied to \<open>x_t\<close>, the same
  timesteps, \<open>x_res\<close> and \<open>noise\<close> returns \<open>x_start\<close> exactly.
\<close>

theorem q_sample_round_trip:
  assumes init: "Diffusion_init m a = Inr d"
    and t: "list_all (\<lambda>ti. 0 \<le> ti \<and> ti < num_timesteps d) t"
    and lt: "length t = length x_start"
    and sr: "map length x_res = map length x_start"
    and sn: "map length noise = map length x_start"
  shows "\<exists>x_t. q_sample d g (fin_tensor x_start) (fin_tensor x_res) t (Some (fin_tensor noise))
                 = Inr x_t
     \<and> predict_start_from_res_noise d x_t t (fin_tensor x_res) (fin_tensor noise)
                 = Inr (fin_tensor x_start)"
proof -
  from init_schedule[OF init] obtain n where n: "0 < n" "num_timesteps d = int n"
    "length (alphas_cumsum d) = n" "length (betas_cumsum d) = n"
    by auto
  define A where "A = map (\<lambda>ti. alphas_cumsum d ! nat ti) t"
  define B where "B = map (\<lambda>ti. betas_cumsum d ! nat ti) t"
  have ea: "extract_t (map Fin (alphas_cumsum d)) t = Inr (map Fin A)"
    using t n by (auto simp: extract_t_def A_def list_all_iff nat_less_iff)
  have eb: "extract_t (map Fin (betas_cumsum d)) t = Inr (map Fin B)"
    using t n by (auto simp: extract_t_def B_def list_all_iff nat_less_iff)
  have lA: "length A = length x_res" "length B = length noise"
    using lt same_shape_nth(1)[OF sr] same_shape_nth(1)[OF sn] by (simp_all add: A_def B_def)
  define AR where "AR = map (\<lambda>i. map (\<lambda>v. A ! i * v) (x_res ! i)) [0..<length x_res]"
  define BN where "BN = map (\<lambda>i. map (\<lambda>v. B ! i * v) (noise ! i)) [0..<length noise]"
  have sAR: "map length AR = map length x_start"
    unfolding AR_def shape_rows by (rule sr)
  have sBN: "map length BN = map length x_start"
    unfolding BN_def shape_rows by (rule sn)
  define S1 where "S1 = map (\<lambda>i. map (\<lambda>j. x_start ! i ! j + AR ! i ! j) [0..<length (x_start ! i)])
                              [0..<length x_start]"
  have sS1: "map length S1 = map length x_start"
    unfolding S1_def shape_idx by (rule refl)
  define XT where "XT = map (\<lambda>i. map (\<lambda>j. S1 ! i ! j + BN ! i ! j) [0..<length (S1 ! i)])
                              [0..<length S1]"
  have sXT: "map length XT = map length x_start"
    unfolding XT_def shape_idx by (rule sS1)
  have q: "q_sample d g (fin_tensor x_start) (fin_tensor x_res) t (Some (fin_tensor noise))
             = Inr (fin_tensor XT)"
    unfolding q_sample_def
    by (simp add: ea eb and_then_def coef_op_fin[OF lA(1)] coef_op_fin[OF lA(2)]
        tensor_op_fin[where h="(+)"] sAR sBN sS1 flip: AR_def BN_def S1_def XT_def)
  define S2 where "S2 = map (\<lambda>i. map (\<lambda>j. XT ! i ! j - AR ! i ! j) [0..<length (XT ! i)])
                              [0..<length XT]"
  have sS2: "map length S2 = map length x_start"
    unfolding S2_def shape_idx by (rule sXT)
  define R where "R = map (\<lambda>i. map (\<lambda>j. S2 ! i ! j - BN ! i ! j) [0..<length (S2 ! i)])
                              [0..<length S2]"
  have p: "predict_start_from_res_noise d (fin_tensor XT) t (fin_tensor x_res) (fin_tensor noise)
             = Inr (fin_tensor R)"
    unfolding predict_start_from_res_noise_def
    by (simp add: ea eb and_then_def coef_op_fin[OF lA(1)] coef_op_fin[OF lA(2)]
        tensor_op_fin[where h="(-)"] sAR sBN sXT sS2 flip: AR_def BN_def S2_def R_def)
  have len: "length S2 = length x_start" "length XT = length x_start" "length S1 = length x_start"
    "length AR = length x_start" "length BN = length x_start"
    using sS2 sXT sS1 sAR sBN by (metis length_map)+
  have rows: "length (S2 ! i) = length (x_start ! i)" "length (XT ! i) = length (x_start ! i)"
    "length (S1 ! i) = length (x_start ! i)"
    if "i < length x_start" for i
    using that same_shape_nth(2)[OF sS2] same_shape_nth(2)[OF sXT] same_shape_nth(2)[OF sS1] len
    by simp_all
  have "R = x_start"
  proof (rule nth_equalityI)
    show "length R = length x_start" by (simp add: R_def len)
  next
    fix i assume "i < length R"
    then have i: "i < length x_start" by (simp add: R_def len)
    show "R ! i = x_start ! i"
    proof (rule nth_equalityI)
      show "length (R ! i) = length (x_start ! i)" using i by (simp add: R_def len rows)
    next
      fix j assume "j < length (R ! i)"
      then have j: "j < length (x_start ! i)" using i by (simp add: R_def len rows)
      show "R ! i ! j = x_start ! i ! j"
        using i j by (simp add: R_def S2_def XT_def S1_def len rows)
    qed
  qed
  with q p show ?thesis by simp
qed


theorem q_sample_round_trip_witness:
  "\<exists>d. Diffusion_init example_unet example_args = Inr d
     \<and> list_all (\<lambda>ti. 0 \<le> ti \<and> ti < num_timesteps d) [1]
     \<and> (\<exists>x_t. q_sample d (\<lambda>i j. 0) (fin_tensor [[3]]) (fin_tensor [[-1]]) [1]
                  (Some (fin_tensor [[2]])) = Inr x_t
          \<and> predict_start_from_res_noise d x_t [1] (fin_tensor [[-1]]) (fin_tensor [[2]])
               = Inr (fin_tensor [[3]]))"
proof -
  from example_init obtain d where d: "Diffusion_init example_unet example_args = Inr d" ..
  from example_timesteps[OF d] have n: "num_timesteps d = 3" .
  then have t: "list_all (\<lambda>ti. 0 \<le> ti \<and> ti < num_timesteps d) [1]" by simp
  from q_sample_round_trip[OF d t, of "[[3]]" "[[-1]]" "[[2]]" "\<lambda>i j. 0"] d t
  show ?thesis by auto
qed

text \<open>
  C2: after construction, \<open>posterior_mean_coef1[0] = 0\<close>, \<open>posterior_mean_coef2[0] = 0\<close>,
  \<open>posterior_mean_coef3[0] = 1\<close> and \<open>posterior_variance[0] = 0\<close>; so for finite tensors
  \<open>x_t\<close>, \<open>pred_res\<close> and \<open>x_start\<close> of one shape, \<^verbatim>\<open>q_posterior\<close> at the timestep \<open>0\<close> of
  every sample returns \<open>x_start\<close> as the posterior mean and \<open>0\<close> as the posterior variance.
\<close>

theorem posterior_boundary:
  assumes init: "Diffusion_init m a = Inr d"
    and sr: "map length pred_res = map length x_t"
    and ss: "map length x_start = map length x_t"
  shows "posterior_mean_coef1 d ! 0 = Fin 0 \<and> posterior_mean_coef2 d ! 0 = Fin 0
     \<and> posterior_mean_coef3 d ! 0 = Fin 1 \<and> posterior_variance d ! 0 = Fin 0
     \<and> (\<exists>plv. q_posterior d (fin_tensor pred_res) (fin_tensor x_start) (fin_tensor x_t)
                  (replicate (length x_t) 0)
                = Inr (fin_tensor x_start, replicate (length x_t) (Fin 0), plv))"
proof -
  note b = init_boundary[OF init]
  have pos: "posterior_mean_coef1 d \<noteq> []" "posterior_mean_coef2 d \<noteq> []"
    "posterior_mean_coef3 d \<noteq> []" "posterior_variance d \<noteq> []"
    "posterior_log_variance_clipped d \<noteq> []"
    using b by auto
  have l: "length pred_res = length x_t" "length x_start = length x_t"
    using same_shape_nth(1)[OF sr] same_shape_nth(1)[OF ss] by simp_all
  define Z1 where "Z1 = map (map (\<lambda>v. 0::real)) x_t"
  define Z2 where "Z2 = map (map (\<lambda>v. 0::real)) pred_res"
  define M12 where "M12 = map (\<lambda>i. map (\<lambda>j. Z1 ! i ! j + Z2 ! i ! j) [0..<length (Z1 ! i)])
                              [0..<length Z1]"
  define MEAN where "MEAN = map (\<lambda>i. map (\<lambda>j. M12 ! i ! j + x_start ! i ! j) [0..<length (M12 ! i)])
                              [0..<length M12]"
  have c1: "coef_op tmul (replicate (length x_t) (Fin 0)) (fin_tensor x_t) = Inr (fin_tensor Z1)"
    using coef_op_replicate_fin[of x_t 0] by (simp add: Z1_def)
  have c2: "coef_op tmul (replicate (length x_t) (Fin 0)) (fin_tensor pred_res)
              = Inr (fin_tensor Z2)"
    using coef_op_replicate_fin[of pred_res 0] l by (simp add: Z2_def)
  have c3: "coef_op tmul (replicate (length x_t) (Fin 1)) (fin_tensor x_start)
              = Inr (fin_tensor x_start)"
    using coef_op_replicate_fin[of x_start 1] l by simp
  have s1: "map length Z1 = map length x_t" by (simp add: Z1_def comp_def)
  have s2: "map length Z2 = map length x_t" using sr by (simp add: Z2_def comp_def)
  have s12: "map length M12 = map length x_t" unfolding M12_def shape_idx by (rule s1)
  have sM: "map length MEAN = map length x_t" unfolding MEAN_def shape_idx by (rule s12)
  have q: "q_posterior d (fin_tensor pred_res) (fin_tensor x_start) (fin_tensor x_t)
                  (replicate (length x_t) 0)
            = Inr (fin_tensor MEAN, replicate (length x_t) (Fin 0),
                   replicate (length x_t) (posterior_log_variance_clipped d ! 0))"
    unfolding q_posterior_def
    by (simp add: extract_t_zeros pos b(1-4) and_then_def c1 c2 c3
        tensor_op_fin[where h="(+)"] s1 s2 s12 ss
        flip: M12_def MEAN_def)
  have len: "length MEAN = length x_t" "length M12 = length x_t" "length Z1 = length x_t"
    "length Z2 = length x_t"
    using sM s12 s1 s2 by (metis length_map)+
  have rows: "length (MEAN ! i) = length (x_t ! i)" "length (M12 ! i) = length (x_t ! i)"
    "length (x_start ! i) = length (x_t ! i)" "length (pred_res ! i) = length (x_t ! i)"
    if "i < length x_t" for i
    using that same_shape_nth(2)[OF sM] same_shape_nth(2)[OF s12] same_shape_nth(2)[OF ss]
      same_shape_nth(2)[OF sr] len l
    by simp_all
  have "MEAN = x_start"
  proof (rule nth_equalityI)
    show "length MEAN = length x_start" by (simp add: len l)
  next
    fix i assume "i < length MEAN"
    then have i: "i < length x_t" by (simp add: len)
    show "MEAN ! i = x_start ! i"
    proof (rule nth_equalityI)
      show "length (MEAN ! i) = length (x_start ! i)" using i by (simp add: rows)
    next
      fix j assume "j < length (MEAN ! i)"
      then have j: "j < length (x_t ! i)" using i by (simp add: rows)
      show "MEAN ! i ! j = x_start ! i ! j"
        using i j by (simp add: MEAN_def M12_def Z1_def Z2_def len l rows)
    qed
  qed
  with q b(1-4) show ?thesis by simp
qed

theorem posterior_boundary_witness:
  "\<exists>d. Diffusion_init example_unet example_args = Inr d
     \<and> posterior_mean_coef1 d ! 0 = Fin 0 \<and> posterior_mean_coef2 d ! 0 = Fin 0
     \<and> posterior_mean_coef3 d ! 0 = Fin 1 \<and> posterior_variance d ! 0 = Fin 0
     \<and> (\<exists>plv. q_posterior d (fin_tensor [[5, 7]]) (fin_tensor [[2, 3]]) (fin_tensor [[4, 1]]) [0]
                = Inr (fin_tensor [[2, 3]], [Fin 0], plv))"
proof -
  from example_init obtain d where d: "Diffusion_init example_unet example_args = Inr d" ..
  from posterior_boundary[OF d, of "[[5, 7]]" "[[4, 1]]" "[[2, 3]]"] d
  show ?thesis by auto
qed

text \<open>
  C3: after construction, \<open>alphas_cumsum[t] + one_minus_alphas_cumsum[t] = 1\<close> at every
  timestep but the last; at the last timestep \<open>one_minus_alphas_cumsum\<close> is the substituted
  \<open>1e-6\<close> and not \<open>1 - alphas_cumsum\<close>, which is \<open>0\<close> there; and \<open>betas2_cumsum\<close> is
  non-decreasing.
\<close>

theorem cumsum_invariant:
  assumes "Diffusion_init m a = Inr d"
  shows "0 < num_timesteps d
     \<and> length (alphas_cumsum d) = nat (num_timesteps d)
     \<and> length (one_minus_alphas_cumsum d) = nat (num_timesteps d)
     \<and> length (betas2_cumsum d) = nat (num_timesteps d)
     \<and> (\<forall>t. int t < num_timesteps d - 1 \<longrightarrow>
            alphas_cumsum d ! t + one_minus_alphas_cumsum d ! t = 1)
     \<and> one_minus_alphas_cumsum d ! nat (num_timesteps d - 1) = 1 / 10 ^ 6
     \<and> alphas_cumsum d ! nat (num_timesteps d - 1) = 1
     \<and> sorted (betas2_cumsum d)"
proof -
  from init_schedule[OF assms] obtain n where n: "0 < n" "num_timesteps d = int n"
    and al: "alphas d = rev (ramp n)"
    and b2: "betas2 d = map (\<lambda>x. x * sum_scale d) (ramp n)"
    and ac: "alphas_cumsum d = map clip01 (cumsum (alphas d))"
    and bc: "betas2_cumsum d = map clip01 (cumsum (betas2 d))"
    and om: "one_minus_alphas_cumsum d = (map (\<lambda>x. 1 - x) (alphas_cumsum d))[n - 1 := 1 / 10 ^ 6]"
    by auto
  have l: "length (alphas_cumsum d) = n" "length (betas2_cumsum d) = n"
    "length (one_minus_alphas_cumsum d) = n"
    by (simp_all add: ac bc om al b2)
  have last_idx: "nat (num_timesteps d - 1) = n - 1" using n by linarith
  have 1: "alphas_cumsum d ! t + one_minus_alphas_cumsum d ! t = 1" if "int t < num_timesteps d - 1" for t
  proof -
    from that n have t: "t < n - 1" by simp
    then have "one_minus_alphas_cumsum d ! t = 1 - alphas_cumsum d ! t"
      using l by (simp add: om)
    then show ?thesis by simp
  qed
  have 2: "one_minus_alphas_cumsum d ! (n - 1) = 1 / 10 ^ 6"
    using n l by (simp add: om)
  have 3: "alphas_cumsum d ! (n - 1) = 1"
    using alphas_cumsum_last[OF n(1)] by (simp add: ac al)
  have 4: "sorted (betas2_cumsum d)"
    unfolding bc b2 by (rule sorted_clipped_cumsum)
  show ?thesis unfolding last_idx using n l 1 2 3 4 by simp
qed

theorem cumsum_invariant_witness:
  "\<exists>d. Diffusion_init example_unet example_args = Inr d
     \<and> int 0 < num_timesteps d - 1
     \<and> alphas_cumsum d ! 0 + one_minus_alphas_cumsum d ! 0 = 1
     \<and> one_minus_alphas_cumsum d ! nat (num_timesteps d - 1) = 1 / 10 ^ 6
     \<and> alphas_cumsum d ! nat (num_timesteps d - 1) = 1
     \<and> sorted (betas2_cumsum d)"
proof -
  from example_init obtain d where d: "Diffusion_init example_unet example_args = Inr d" ..
  from example_timesteps[OF d] have n: "num_timesteps d = 3" .
  from cumsum_invariant[OF d] d n show ?thesis by auto
qed

text \<open>
  C4, as amended: in generation mode (one tensor, no paired input) \<^verbatim>\<open>p_losses\<close> takes
  \<open>x_input\<close> to be the number \<open>0\<close>, so the residual \<open>x_res = 0 - x_start\<close> is the negated
  clean image, not zero; in unconditional mode without self-conditioning the loss compares
  the first output of the denoiser with \<open>- x_start\<close> and the second with the noise.
\<close>

theorem p_losses_generation_target:
  assumes init: "Diffusion_init m a = Inr d"
    and gen: "\<not> arg_condition a"
    and nsc: "\<not> (m_self_condition m \<and> coin < 1 / 2)"
    and lf: "loss_fn d = Inr l"
    and t: "list_all (\<lambda>ti. 0 \<le> ti \<and> ti < num_timesteps d) t"
    and lt: "length t = length x_start"
    and sn: "map length nz = map length x_start"
  shows "p_losses_inputs d (ImgTensor (fin_tensor x_start))
           = Inr (False, None, None, fin_tensor x_start)
     \<and> residual None (fin_tensor x_start) = Inr (fin_tensor (map (map uminus) x_start))
     \<and> (\<exists>x_t. q_sample d g (fin_tensor x_start) (fin_tensor (map (map uminus) x_start)) t
                  (Some (fin_tensor nz)) = Inr x_t
          \<and> p_losses d g coin (ImgTensor (fin_tensor x_start)) t (Some (fin_tensor nz))
              = and_then (tensor_op l (fst (forward m x_t t None))
                            (fin_tensor (map (map uminus) x_start))) (\<lambda>loss0.
                and_then (tensor_op l (snd (forward m x_t t None)) (fin_tensor nz)) (\<lambda>loss1.
                and_then (tensor_op tadd (scalar_op (tadd (Fin 0)) loss0) loss1) (\<lambda>loss.
                Inr (tmean (map tmean loss))))))"
  using p_losses_generation_formula[OF assms, of g] residual_generation[of x_start]
  by (simp add: p_losses_inputs_def)

theorem p_losses_generation_target_witness:
  "\<exists>d. Diffusion_init zero_unet generation_args = Inr d
     \<and> \<not> arg_condition generation_args
     \<and> loss_fn d = Inr (\<lambda>u v. tabs (tsub u v))
     \<and> list_all (\<lambda>ti. 0 \<le> ti \<and> ti < num_timesteps d) [0]
     \<and> residual None (fin_tensor [[1]]) = Inr (fin_tensor [[- 1]])
     \<and> p_losses d (\<lambda>i j. 0) 0 (ImgTensor [[Fin 1]]) [0] (Some [[Fin 0]]) = Inr (Fin 1)"
proof -
  from generation_init obtain d where d: "Diffusion_init zero_unet generation_args = Inr d" ..
  note f = generation_facts[OF d]
  have g: "\<not> arg_condition generation_args" by (simp add: generation_args_def)
  have s: "\<not> (m_self_condition zero_unet \<and> (0::real) < 1 / 2)" by (simp add: zero_unet_def)
  have t: "list_all (\<lambda>ti. 0 \<le> ti \<and> ti < num_timesteps d) [0]" by (simp add: f(1))
  from p_losses_generation_target[OF d g s f(2) t, of "[[1]]" "[[0]]" "\<lambda>i j. 0"]
  have r: "residual None (fin_tensor [[1]]) = Inr (fin_tensor [[- 1]])"
    and "\<exists>x_t. q_sample d (\<lambda>i j. 0) (fin_tensor [[1]]) (fin_tensor (map (map uminus) [[1]])) [0]
                  (Some (fin_tensor [[0]])) = Inr x_t
     \<and> p_losses d (\<lambda>i j. 0) 0 (ImgTensor (fin_tensor [[1]])) [0] (Some (fin_tensor [[0]]))
         = and_then (tensor_op (\<lambda>u v. tabs (tsub u v)) (fst (forward zero_unet x_t [0] None))
                       (fin_tensor (map (map uminus) [[1]]))) (\<lambda>loss0.
           and_then (tensor_op (\<lambda>u v. tabs (tsub u v)) (snd (forward zero_unet x_t [0] None))
                       (fin_tensor [[0]])) (\<lambda>loss1.
           and_then (tensor_op tadd (scalar_op (tadd (Fin 0)) loss0) loss1) (\<lambda>loss.
           Inr (tmean (map tmean loss)))))"
    by simp_all
  then have "p_losses d (\<lambda>i j. 0) 0 (ImgTensor [[Fin 1]]) [0] (Some [[Fin 0]]) = Inr (Fin 1)"
    using generation_loss_value by blast
  with d g f(2) t r show ?thesis by blast
qed

theorem p_losses_zero_residual_counterexample:
  "\<exists>d. Diffusion_init zero_unet generation_args = Inr d
     \<and> \<not> condition d
     \<and> p_losses_inputs d (ImgTensor [[Fin 1]]) = Inr (False, None, None, [[Fin 1]])
     \<and> residual None [[Fin 1]] = Inr [[Fin (- 1)]]
     \<and> Fin (- 1) \<noteq> Fin 0
     \<and> forward (model d) [[Fin (1 / 2)]] [0] None = ([[Fin 0]], [[Fin 0]])
     \<and> p_losses d (\<lambda>i j. 0) 0 (ImgTensor [[Fin 1]]) [0] (Some [[Fin 0]]) = Inr (Fin 1)"
proof -
  from generation_init obtain d where d: "Diffusion_init zero_unet generation_args = Inr d" ..
  note f = generation_facts[OF d]
  have m: "model d = zero_unet" using init_flags[OF d] by simp
  have r: "residual None [[Fin 1]] = Inr [[Fin (- 1)]]"
    by (simp add: residual_def scalar_op_def tsub_def)
  show ?thesis
    using d f(3) r generation_example_loss[OF d, of "\<lambda>i j. 0" 0]
    by (auto simp: p_losses_inputs_def m zero_unet_def)
qed

text \<open>
  C5, as amended: in conditional mode with the reduced-step sampler (\<open>eta\<close> is forced to
  \<open>0\<close>) and at least one sampling step, when the input tensors are finite and the denoiser
  is finite, a run of \<^verbatim>\<open>sample\<close> that returns (with \<open>last\<close> set) returns two tensors, the
  noised input and the final image, and every element of the final image lies in \<open>[0, 1]\<close>.
  The claim as stated covers every returned tensor: the first one is the normalised input
  plus \<open>sqrt(sum_scale)\<close> times the initial noise, which no clamp bounds.
\<close>

theorem sample_final_image_range:
  assumes init: "Diffusion_init m a = Inr d"
    and cond: "arg_condition a"
    and ddim: "is_ddim_sampling d"
    and S: "1 \<le> sampling_timesteps d"
    and den: "finite_denoiser (forward m)"
    and xin: "list_all finite_tensor xs"
    and run: "sample d r (XList xs) batch_size True = Inr out"
  shows "ddim_sampling_eta d = 0
     \<and> (\<exists>noisy final. out = [noisy, final] \<and> list_all (list_all (in_range 0 1)) final)"
proof -
  note fl = init_flags[OF init]
  have c: "condition d" using fl cond by simp
  have eta: "ddim_sampling_eta d = 0" using fl cond by simp
  from run c ddim obtain xs' x0 where
    xs': "(if input_condition d \<and> input_condition_mask d then
             and_then (py_index xs 0) (\<lambda>x0. Inr (xs[0 := normalize_to_neg_one_to_one x0]))
           else Inr (map normalize_to_neg_one_to_one xs)) = Inr xs'" and
    ds: "ddim_sample d r (XList xs') (tensor_shape x0) True = Inr out"
    by (auto simp: sample_def and_then_def split: sum.splits)
  have "list_all finite_tensor xs'"
  proof (cases "input_condition d \<and> input_condition_mask d")
    case True
    with xs' obtain y where y: "py_index xs 0 = Inr y"
      and e: "xs' = xs[0 := normalize_to_neg_one_to_one y]"
      by (auto simp: and_then_def split: sum.splits)
    have "finite_tensor (normalize_to_neg_one_to_one y)"
      using py_index_in_set[OF y] xin by (intro finite_normalize) (simp add: list_all_iff)
    then show ?thesis
      using xin set_update_subset_insert[of xs 0 "normalize_to_neg_one_to_one y"]
      unfolding e list_all_iff by blast
  next
    case False
    with xs' have "xs' = map normalize_to_neg_one_to_one xs" by simp
    then show ?thesis using xin by (simp add: list_all_iff finite_normalize)
  qed
  from ddim_sample_final_range[OF init c S den this ds] eta show ?thesis by simp
qed

theorem sample_final_image_range_witness:
  "\<exists>d. Diffusion_init example_unet example_args = Inr d
     \<and> arg_condition example_args \<and> is_ddim_sampling d \<and> 1 \<le> sampling_timesteps d
     \<and> finite_denoiser (forward example_unet) \<and> list_all finite_tensor [[[Fin 1]]]
     \<and> sample d (\<lambda>k i j. 1) (XList [[[Fin 1]]]) 16 True
          = Inr [[[Fin (21 / 20)]], [[Fin (11 / 20)]]]
     \<and> list_all (list_all (in_range 0 1)) [[Fin (11 / 20)]]"
proof -
  from example_init obtain d where d: "Diffusion_init example_unet example_args = Inr d" ..
  have c: "arg_condition example_args" by (simp add: example_args_def)
  note e = example_schedule[OF d]
  have S: "1 \<le> sampling_timesteps d" using e by simp
  have den: "finite_denoiser (forward example_unet)"
    by (simp add: finite_denoiser_def example_unet_def finite_tensor_def)
  have xin: "list_all finite_tensor [[[Fin 1]]]" by (simp add: finite_tensor_def)
  have v: "sample d (\<lambda>k i j. 1) (XList [[[Fin 1]]]) 16 True
             = Inr [[[Fin (21 / 20)]], [[Fin (11 / 20)]]]"
    by (rule example_sample[OF d]) simp
  from sample_final_image_range[OF d c e(6) S den xin v] d c e(6) S den xin v
  show ?thesis by auto
qed

theorem sample_unit_interval_counterexample:
  "\<exists>d. Diffusion_init example_unet example_args = Inr d
     \<and> condition d \<and> is_ddim_sampling d \<and> ddim_sampling_eta d = 0
     \<and> sample d (\<lambda>k i j. 1) (XList [[[Fin 1]]]) 16 True
          = Inr [[[Fin (21 / 20)]], [[Fin (11 / 20)]]]
     \<and> \<not> in_range 0 1 (Fin (21 / 20))"
proof -
  from example_init obtain d where d: "Diffusion_init example_unet example_args = Inr d" ..
  note e = example_schedule[OF d]
  have v: "sample d (\<lambda>k i j. 1) (XList [[[Fin 1]]]) 16 True
             = Inr [[[Fin (21 / 20)]], [[Fin (11 / 20)]]]"
    by (rule example_sample[OF d]) simp
  show ?thesis using d e(6,7,10) v by (auto simp: in_range_def)
qed

text \<open>
  C6: the consecutive pairs \<open>(time, time_next)\<close> of the time sequence of the reduced-step
  sampler do not strictly decrease for every \<open>1 \<le> S \<le> T\<close>. The sequence is spaced by
  \<^verbatim>\<open>torch.linspace\<close> in single precision and then truncated: with \<open>T = 6456\<close> and
  \<open>S = 6454\<close> it is computed, has \<open>S + 1\<close> points, starts at \<open>time = T - 1\<close> and ends at
  \<open>time_next = -1\<close>, but two neighbouring points are both truncated to 3226, so the pair
  of index 3227 is \<open>(3226, 3226)\<close>.
\<close>

theorem ddim_time_pairs_repeat:
  "\<exists>ts. ddim_times 6456 6454 = Inr ts
     \<and> length ts = 6455
     \<and> fst (hd (time_pairs ts)) = 6455
     \<and> snd (last (time_pairs ts)) = - 1
     \<and> time_pairs ts ! 3227 = (3226, 3226)
     \<and> \<not> list_all (\<lambda>(time, time_next). time_next < time) (time_pairs ts)"
proof -
  have S: "(1::int) \<le> 6454" by simp
  obtain ts where ts: "ddim_times 6456 6454 = Inr ts"
    using ddim_times_points[OF S, of 6456] by blast
  have len: "length ts = 6455" using ddim_times_nth(1)[OF S ts] by simp
  have first: "fst (hd (time_pairs ts)) = 6455"
    using ddim_pairs_start[OF S _ ts] by simp
  have lst: "snd (last (time_pairs ts)) = - 1" by (rule ddim_pairs_end(2)[OF S ts])
  have k: "(3227::nat) < nat 6454" by simp
  have t: "trunc_int (13217791 / 4096) = 3226" "trunc_int 3226 = 3226"
    by (simp_all add: trunc_int_def)
  have n: "nat 6454 - 3227 = (3227::nat)" "nat 6454 - Suc 3227 = (3226::nat)" by simp_all
  have pair: "time_pairs ts ! 3227 = (3226, 3226)"
    using ddim_pair_nth[OF S ts k] unfolding n ddim_point_3226 ddim_point_3227 t .
  have "3227 < length (time_pairs ts)" by (simp add: len)
  then have "\<not> list_all (\<lambda>(time, time_next). time_next < time) (time_pairs ts)"
    using pair by (auto simp: list_all_length)
  then show ?thesis using ts len first lst pair by blast
qed

text \<open>
  C7: the assertion of \<^verbatim>\<open>gen_coefficients\<close> is one-sided: it compares \<open>sum - 1\<close>, not its
  absolute value, with \<open>1e-10\<close>. At \<open>timesteps = 0\<close> the raw "increased" sequence is empty,
  its sum \<open>0\<close> differs from \<open>1\<close> by more than \<open>1e-10\<close>, the assertion holds and the empty
  sequence is returned.
\<close>

theorem gen_coefficients_assertion_misses:
  "raw_coefficients 0 ''increased'' = Inr []
   \<and> 1 / 10 ^ 10 < \<bar>sum_list ([]::real list) - 1\<bar>
   \<and> sum_assertion []
   \<and> gen_coefficients 0 ''increased'' 1 = Inr []"
  by (simp add: gen_coefficients_def raw_coefficients_def linspace_def sum_assertion_def)

text \<open>
  C8: construction in conditional mode forces \<open>ddim_sampling_eta\<close> to \<open>0\<close>, and then the
  reduced-step sampler reads no random draw but the initial one: two runs of \<^verbatim>\<open>sample\<close> on
  the same input whose random sources agree on the initial draw return the same result,
  whatever the later draws are.
\<close>

theorem ddim_deterministic:
  assumes init: "Diffusion_init m a = Inr d"
    and cond: "arg_condition a"
    and ddim: "is_ddim_sampling d"
    and draw0: "r 0 = r' 0"
  shows "ddim_sampling_eta d = 0
     \<and> sample d r x_input batch_size only_last = sample d r' x_input batch_size only_last"
proof -
  have eta: "ddim_sampling_eta d = 0" using init_flags[OF init] cond by simp
  have "ddim_sample d r xi shape only_last = ddim_sample d r' xi shape only_last" for xi shape
    by (rule ddim_sample_eta0[of d r r', OF eta draw0])
  then show ?thesis using eta ddim by (cases x_input) (simp_all add: sample_def)
qed

theorem ddim_deterministic_witness:
  "\<exists>d. Diffusion_init example_unet example_args = Inr d
     \<and> arg_condition example_args \<and> is_ddim_sampling d \<and> ddim_sampling_eta d = 0
     \<and> sample d (\<lambda>k i j. if k = 0 then 1 else 5) (XList [[[Fin 1]]]) 16 True
         = sample d (\<lambda>k i j. if k = 0 then 1 else 7) (XList [[[Fin 1]]]) 16 True
     \<and> sample d (\<lambda>k i j. if k = 0 then 1 else 5) (XList [[[Fin 1]]]) 16 True
         = Inr [[[Fin (21 / 20)]], [[Fin (11 / 20)]]]"
proof -
  from example_init obtain d where d: "Diffusion_init example_unet example_args = Inr d" ..
  have c: "arg_condition example_args" by (simp add: example_args_def)
  note e = example_schedule[OF d]
  let ?r = "\<lambda>k i j. if k = (0::nat) then (1::real) else 5"
  let ?r' = "\<lambda>k i j. if k = (0::nat) then (1::real) else 7"
  have v: "sample d ?r (XList [[[Fin 1]]]) 16 True = Inr [[[Fin (21 / 20)]], [[Fin (11 / 20)]]]"
    by (rule example_sample[OF d]) simp
  from ddim_deterministic[of example_unet example_args d ?r ?r' "XList [[[Fin 1]]]" 16 True,
      OF d c e(6)] d c e(6) v
  show ?thesis by auto
qed

text \<open>
  C9: for every schedule string other than "increased", "decreased" and "average",
  \<^verbatim>\<open>gen_coefficients\<close> takes the branch of "average" and raises no configuration error:
  it returns what it returns for "average", which for a positive number of timesteps is
  the constant sequence \<open>1 / timesteps\<close> times \<open>sum_scale\<close>.
\<close>


theorem gen_coefficients_unknown_schedule:
  assumes "schedule \<noteq> ''increased''" "schedule \<noteq> ''decreased''" "schedule \<noteq> ''average''"
  shows "gen_coefficients T schedule sc = gen_coefficients T ''average'' sc
     \<and> (0 < T \<longrightarrow>
          gen_coefficients T schedule sc = Inr (replicate (nat T) (1 / real_of_int T * sc)))"
proof -
  have same: "raw_coefficients T schedule = raw_coefficients T ''average''"
    using assms by (simp add: raw_coefficients_def)
  have "gen_coefficients T schedule sc = Inr (replicate (nat T) (1 / real_of_int T * sc))"
    if "0 < T"
  proof -
    from that obtain n where n: "T = int n" "0 < n" by (metis zero_less_imp_eq_int)
    have "raw_coefficients T schedule = Inr (replicate n (1 / real n))"
      using raw_uniform[OF assms(1,2) n(2)] n by simp
    then show ?thesis
      using n by (simp add: gen_coefficients_def sum_assertion_def sum_list_replicate)
  qed
  with same show ?thesis by (simp add: gen_coefficients_def)
qed

theorem gen_coefficients_unknown_schedule_witness:
  "''cosine'' \<noteq> ''increased'' \<and> ''cosine'' \<noteq> ''decreased'' \<and> ''cosine'' \<noteq> ''average''
   \<and> gen_coefficients 4 ''cosine'' (1 / 2) = gen_coefficients 4 ''average'' (1 / 2)
   \<and> gen_coefficients 4 ''cosine'' (1 / 2) = Inr [1 / 8, 1 / 8, 1 / 8, 1 / 8]"
  using gen_coefficients_unknown_schedule [of "''cosine''" 4 "1 / 2"]
  by (auto simp: numeral_eq_Suc)

text \<open>
  C10, as amended: after construction with \<open>0 < sum_scale \<le> 1\<close> (the clip on
  \<open>betas2_cumsum\<close> is then inactive and no cumulative sum is zero),
  \<open>posterior_mean_coef1[t] + posterior_mean_coef3[t] = 1\<close> at every timestep \<open>t\<close>, the
  forced boundary \<open>t = 0\<close> included. The claim as stated asks for \<open>sum_scale \<le> 1\<close> only:
  at \<open>sum_scale = -1\<close> every cumulative sum is clipped to \<open>0\<close>, the coefficients are the
  results of divisions by zero, and their sum at \<open>t = 1\<close> is a NaN.
\<close>

theorem posterior_coef_affine:
  assumes init: "Diffusion_init m a = Inr d"
    and scale: "0 < sum_scale d" "sum_scale d \<le> 1"
    and t: "int t < num_timesteps d"
  shows "tadd (posterior_mean_coef1 d ! t) (posterior_mean_coef3 d ! t) = Fin 1"
proof (cases t)
  case 0
  then show ?thesis using init_boundary(1,3)[OF init] by simp
next
  case (Suc k)
  from init_schedule[OF init] obtain n where n: "0 < n" "num_timesteps d = int n"
    "length (betas2 d) = n" "length (betas2_cumsum d) = n"
    by auto
  from t n have tn: "t < n" by simp
  have k: "int k < num_timesteps d" using t Suc by simp
  note p = init_posterior[OF init]
  have prev: "pad_prev (betas2_cumsum d) ! t = betas2_cumsum d ! k"
    using Suc tn n by (simp add: pad_prev_def nth_butlast)
  have c1: "posterior_mean_coef1 d ! t = tdiv (Fin (betas2_cumsum d ! k)) (Fin (betas2_cumsum d ! t))"
    using p tn n Suc prev by (simp del: tdiv.simps)
  have c3: "posterior_mean_coef3 d ! t = tdiv (Fin (betas2 d ! t)) (Fin (betas2_cumsum d ! t))"
    using p tn n Suc by (simp del: tdiv.simps)
  have pos: "0 < betas2_cumsum d ! t" by (rule betas2_cumsum_pos(2)[OF init scale t])
  have step: "betas2_cumsum d ! t = betas2_cumsum d ! k + betas2 d ! t"
    using betas2_cumsum_pos(1)[OF init scale t] betas2_cumsum_pos(1)[OF init scale k]
      cumsum_step[of k "betas2 d"] tn n Suc by simp
  have "tadd (posterior_mean_coef1 d ! t) (posterior_mean_coef3 d ! t)
          = Fin ((betas2_cumsum d ! k + betas2 d ! t) / betas2_cumsum d ! t)"
    using pos by (simp add: c1 c3 add_divide_distrib)
  also have "\<dots> = Fin 1" using pos step by simp
  finally show ?thesis .
qed

theorem posterior_coef_affine_witness:
  "\<exists>d. Diffusion_init example_unet example_args = Inr d
     \<and> 0 < sum_scale d \<and> sum_scale d \<le> 1 \<and> int 1 < num_timesteps d
     \<and> tadd (posterior_mean_coef1 d ! 1) (posterior_mean_coef3 d ! 1) = Fin 1"
proof -
  from example_init obtain d where d: "Diffusion_init example_unet example_args = Inr d" ..
  from example_timesteps[OF d] have n: "num_timesteps d = 3" .
  from init_flags[OF d] have s: "sum_scale d = 1 / 100"
    by (simp add: example_args_def truthy_or_def)
  from posterior_coef_affine[OF d, of 1] d n s show ?thesis by auto
qed

theorem posterior_coef_affine_counterexample:
  "\<exists>d. Diffusion_init example_unet negative_scale_args = Inr d
     \<and> sum_scale d = - 1 \<and> sum_scale d \<le> 1 \<and> num_timesteps d = 2
     \<and> betas2_cumsum d = [0, 0]
     \<and> posterior_mean_coef1 d ! 1 = NaN \<and> posterior_mean_coef3 d ! 1 = NInf
     \<and> tadd (posterior_mean_coef1 d ! 1) (posterior_mean_coef3 d ! 1) \<noteq> Fin 1"
proof -
  have "\<exists>d. Diffusion_init example_unet negative_scale_args = Inr d"
    by (rule init_succeeds) (simp_all add: example_unet_def negative_scale_args_def)
  then obtain d where d: "Diffusion_init example_unet negative_scale_args = Inr d" ..
  from init_flags[OF d] have s: "sum_scale d = - 1"
    by (simp add: negative_scale_args_def truthy_or_def)
  from init_schedule[OF d] have n: "num_timesteps d = 2"
    and b2: "betas2 d = map (\<lambda>x. x * sum_scale d) (ramp 2)"
    and bc: "betas2_cumsum d = map clip01 (cumsum (betas2 d))"
    by (auto simp: negative_scale_args_def)
  have b2': "betas2 d = [- (1 / 3), - (2 / 3)]" by (simp add: b2 s ramp_2)
  have bc': "betas2_cumsum d = [0, 0]" by (simp add: bc b2' cumsum_def clip01_def)
  note p = init_posterior[OF d]
  have c1: "posterior_mean_coef1 d ! 1 = NaN"
    using p by (simp add: b2' bc' pad_prev_def upt_rec[of 0] upt_rec[of 1])
  have c3: "posterior_mean_coef3 d ! 1 = NInf"
    using p by (simp add: b2' bc' pad_prev_def upt_rec[of 0] upt_rec[of 1] inf_of_sign_def)
  show ?thesis using d s n bc' c1 c3 by simp
qed
end
